theory Spec2Isabelle
  imports Main "HOL-Library.AList" "HOL-Library.Char_ord" "HOL-Library.List_Lexorder"
begin

section \<open>The in-memory file system of the web terminal\<close>

text \<open>
  This theory embeds \<^verbatim>\<open>project/src/hooks/useFileSystem.ts\<close> and the types of
  \<^verbatim>\<open>src/types/filesystem.ts\<close>.

  Modelling decisions.
  \<^item> A JavaScript string is a \<open>string\<close>: a list of code units, restricted to the code
    units below 256. The white space of \<^verbatim>\<open>trim\<close> and of the regular expression
    \<^verbatim>\<open>\s\<close> in that range is TAB, LF, VT, FF, CR, SPACE and NBSP.
  \<^item> A \<^verbatim>\<open>Record<string, FileSystemItem>\<close> is an association list with the own keys
    of the object in the order of their creation. The read \<^verbatim>\<open>children[k]\<close> is
    \<open>property\<close>: it finds an own key, and otherwise the value that every object inherits
    from \<^verbatim>\<open>Object.prototype\<close> under the names of \<open>prototype_names\<close> (such as
    \<^verbatim>\<open>constructor\<close>). Such a built-in value is truthy and has none of the properties
    that the code reads. \<^verbatim>\<open>Object.values\<close> is \<open>object_values\<close>: the keys that are array
    indices come first, in ascending order.
  \<^item> An item made from a built-in value has no \<^verbatim>\<open>type\<close> (\<open>Absent\<close>) and may have no
    dates, so the dates of an item are optional.
  \<^item> The model has no state but the file system value. \<^verbatim>\<open>touch\<close> on an inherited name
    writes \<^verbatim>\<open>modified\<close> on a built-in object of the JavaScript realm; that write leaves
    the file system value as it is and is not recorded. So the model describes a realm
    whose built-in objects are as the engine made them: after \<^verbatim>\<open>touch __proto__\<close> every
    object would inherit \<^verbatim>\<open>modified\<close> as a thirteenth name, and after
    \<^verbatim>\<open>touch constructor\<close> a spread of that function would copy a date.
  \<^item> A \<^verbatim>\<open>Date\<close> is the number of milliseconds since the epoch. The copy
    \<^verbatim>\<open>JSON.parse(JSON.stringify(prev))\<close> turns a date into its ISO string, which
    names the same instant, so the deep copy is the identity on values.
  \<^item> The state hook is explicit state passing: \<open>executeCommand\<close> takes the file system
    that the closure captured and returns the result with the file system installed by
    \<^verbatim>\<open>setFileSystem\<close>. The terminal runs one command per submit event, so the
    \<^verbatim>\<open>prev\<close> of the updater is the captured state.
  \<^item> The clock (\<^verbatim>\<open>new Date()\<close>) is an argument \<open>now\<close> of each execution. The
    functions of the platform that depend on the locale or on the engine (the collation,
    the date formats, \<^verbatim>\<open>Array.prototype.sort\<close>) are the fields of a record \<open>Platform\<close>.
  \<^item> A \<^verbatim>\<open>TypeError\<close> thrown inside the updater is the value \<open>None\<close>.
\<close>

subsection \<open>Data model\<close>

type_synonym timestamp = nat

text \<open>The property \<^verbatim>\<open>type\<close> of an object: \<open>Absent\<close> when the object has none.\<close>

datatype item_type = File | Directory | Absent

datatype FileSystemItem = FileSystemItem
  (name: string)
  (type: item_type)
  (content: "string option")
  (children: "(string \<times> FileSystemItem) list option")
  (created: "timestamp option")
  (modified: "timestamp option")

record FileSystem =
  root :: FileSystemItem
  currentPath :: "string list"

record CommandResult =
  "output" :: string
  error :: bool

record Platform =
  localeCompare :: "string \<Rightarrow> string \<Rightarrow> int"
  toLocaleDateString :: "timestamp \<Rightarrow> string"
  toLocaleString :: "timestamp \<Rightarrow> string"
  toISOString :: "timestamp \<Rightarrow> string"
  arraySort ::
    "(FileSystemItem \<Rightarrow> FileSystemItem \<Rightarrow> int) \<Rightarrow> FileSystemItem list \<Rightarrow> FileSystemItem list"

definition set_children :: "FileSystemItem \<Rightarrow> (string \<times> FileSystemItem) list \<Rightarrow> FileSystemItem" where
  "set_children i cs = FileSystemItem (name i) (type i) (content i) (Some cs) (created i) (modified i)"

definition set_modified :: "FileSystemItem \<Rightarrow> timestamp \<Rightarrow> FileSystemItem" where
  "set_modified i t = FileSystemItem (name i) (type i) (content i) (children i) (created i) (Some t)"

definition set_name :: "FileSystemItem \<Rightarrow> string \<Rightarrow> FileSystemItem" where
  "set_name i n = FileSystemItem n (type i) (content i) (children i) (created i) (modified i)"

definition createInitialFileSystem :: "timestamp \<Rightarrow> FileSystem" where
  "createInitialFileSystem now =
    \<lparr>root = FileSystemItem '''' Directory None (Some
       [(''home'', FileSystemItem ''home'' Directory None (Some
          [(''user'', FileSystemItem ''user'' Directory None (Some
             [(''welcome.txt'', FileSystemItem ''welcome.txt'' File
                 (Some (''Welcome to the Web CLI Terminal!'' @ [CHR 0x0A] @
                        ''Type '' @ [CHR 0x22] @ ''help'' @ [CHR 0x22] @ '' to see available commands.''))
                 None (Some now) (Some now)),
              (''documents'', FileSystemItem ''documents'' Directory None (Some []) (Some now) (Some now))])
            (Some now) (Some now))])
          (Some now) (Some now)),
        (''tmp'', FileSystemItem ''tmp'' Directory None (Some []) (Some now) (Some now))])
       (Some now) (Some now),
     currentPath = [''home'', ''user'']\<rparr>"

subsection \<open>Strings and arrays of the platform\<close>

definition is_space :: "char \<Rightarrow> bool" where
  "is_space c = (c \<in> {CHR 0x09, CHR 0x0A, CHR 0x0B, CHR 0x0C, CHR 0x0D, CHR 0x20, CHR 0xA0})"

text \<open>\<^verbatim>\<open>s.trim()\<close>\<close>

definition trim :: "string \<Rightarrow> string" where
  "trim s = rev (dropWhile is_space (rev (dropWhile is_space s)))"

text \<open>\<^verbatim>\<open>s.split(sep)\<close> for a separator of one code unit; the empty string gives \<open>['''']\<close>.\<close>

fun split :: "char \<Rightarrow> string \<Rightarrow> string list" where
  "split sep [] = [[]]"
| "split sep (c # cs) =
     (if c = sep then [] # split sep cs
      else (case split sep cs of [] \<Rightarrow> [[c]] | w # ws \<Rightarrow> (c # w) # ws))"

text \<open>\<^verbatim>\<open>s.split(/\s+/)\<close>: the separators are the maximal runs of white space.\<close>

function split_ws :: "string \<Rightarrow> string list" where
  "split_ws [] = [[]]"
| "split_ws (c # cs) =
     (if is_space c then [] # split_ws (dropWhile is_space cs)
      else (case split_ws cs of [] \<Rightarrow> [[c]] | w # ws \<Rightarrow> (c # w) # ws))"
  by pat_completeness auto
termination
  by (relation "measure length") (auto simp: le_imp_less_Suc length_dropWhile_le)

text \<open>\<^verbatim>\<open>xs.join(sep)\<close>\<close>

fun join :: "string \<Rightarrow> string list \<Rightarrow> string" where
  "join sep [] = []"
| "join sep [x] = x"
| "join sep (x # y # ys) = x @ sep @ join sep (y # ys)"

definition startsWith :: "string \<Rightarrow> string \<Rightarrow> bool" where
  "startsWith s p = (take (length p) s = p)"

text \<open>\<^verbatim>\<open>s.includes(sub)\<close>\<close>

fun str_includes :: "string \<Rightarrow> string \<Rightarrow> bool" where
  "str_includes [] sub = (sub = [])"
| "str_includes (c # cs) sub = (startsWith (c # cs) sub \<or> str_includes cs sub)"

definition digit :: "nat \<Rightarrow> char" where
  "digit d = char_of (48 + d)"

text \<open>\<^verbatim>\<open>n.toString()\<close> for a non-negative integer.\<close>

fun toString :: "nat \<Rightarrow> string" where
  "toString n = (if n < 10 then [digit n] else toString (n div 10) @ [digit (n mod 10)])"

declare toString.simps [simp del]

text \<open>\<^verbatim>\<open>s.padStart(n)\<close>\<close>

definition padStart :: "nat \<Rightarrow> string \<Rightarrow> string" where
  "padStart n s = replicate (n - length s) CHR 0x20 @ s"

text \<open>An element of \<^verbatim>\<open>args\<close>, which is \<^verbatim>\<open>undefined\<close> beyond the end of the array.\<close>

definition arg :: "string list \<Rightarrow> nat \<Rightarrow> string option" where
  "arg args i = (if i < length args then Some (args ! i) else None)"

text \<open>The text of \<^verbatim>\<open>${args[i]}\<close> in a template.\<close>

definition show_arg :: "string option \<Rightarrow> string" where
  "show_arg a = (case a of None \<Rightarrow> ''undefined'' | Some s \<Rightarrow> s)"

definition quoted :: "string \<Rightarrow> string" where
  "quoted s = [CHR 0x27] @ s @ [CHR 0x27]"

subsection \<open>Tree store: lookup\<close>

text \<open>The names of the properties of \<^verbatim>\<open>Object.prototype\<close>.\<close>

definition prototype_names :: "string list" where
  "prototype_names =
     [''constructor'', ''__defineGetter__'', ''__defineSetter__'', ''hasOwnProperty'',
      ''__lookupGetter__'', ''__lookupSetter__'', ''isPrototypeOf'', ''propertyIsEnumerable'',
      ''toString'', ''valueOf'', ''__proto__'', ''toLocaleString'']"

text \<open>
  The value that an object inherits under a name: a built-in function, or under
  \<^verbatim>\<open>__proto__\<close> the prototype object itself. It is an object, so it is truthy; it has
  no \<^verbatim>\<open>type\<close>, \<^verbatim>\<open>content\<close>, \<^verbatim>\<open>children\<close> or dates, and no enumerable property of its
  own, so a spread of it copies nothing. Its \<^verbatim>\<open>name\<close> (the name of the function) is never
  read by the code.
\<close>

definition inherited :: "string \<Rightarrow> FileSystemItem option" where
  "inherited k =
     (if k \<in> set prototype_names
      then Some (FileSystemItem
                  (if k = ''constructor'' then ''Object'' else if k = ''__proto__'' then [] else k)
                  Absent None None None None)
      else None)"

text \<open>The read \<^verbatim>\<open>obj[k]\<close> on an object with the own properties \<open>cs\<close>.\<close>

definition property :: "(string \<times> FileSystemItem) list \<Rightarrow> string \<Rightarrow> FileSystemItem option" where
  "property cs k = (case map_of cs k of Some item \<Rightarrow> Some item | None \<Rightarrow> inherited k)"

text \<open>
  The loop shared by \<^verbatim>\<open>getCurrentDirectory\<close> and \<^verbatim>\<open>getItemAtPath\<close>: follow
  \<^verbatim>\<open>current.children[segment]\<close> while \<^verbatim>\<open>current.children\<close> and the value read are
  truthy.
\<close>

fun walk :: "FileSystemItem \<Rightarrow> string list \<Rightarrow> FileSystemItem option" where
  "walk current [] = Some current"
| "walk current (segment # path) =
     (case children current of
        None \<Rightarrow> None
      | Some cs \<Rightarrow> (case property cs segment of None \<Rightarrow> None | Some child \<Rightarrow> walk child path))"

definition getCurrentDirectory :: "FileSystem \<Rightarrow> FileSystemItem" where
  "getCurrentDirectory fileSystem =
     (case walk (root fileSystem) (currentPath fileSystem) of
        None \<Rightarrow> root fileSystem
      | Some current \<Rightarrow> current)"

definition getItemAtPath :: "FileSystem \<Rightarrow> string list \<Rightarrow> FileSystemItem option" where
  "getItemAtPath fileSystem path = walk (root fileSystem) path"

subsection \<open>Path resolver\<close>

definition segments :: "string \<Rightarrow> string list" where
  "segments inputPath = filter (\<lambda>s. s \<noteq> []) (split CHR ''/'' inputPath)"

text \<open>One round of the loop over the segments of a relative path.\<close>

definition resolve_segment :: "string list \<Rightarrow> string \<Rightarrow> string list" where
  "resolve_segment path segment =
     (if segment = ''..'' then (if length path > 0 then butlast path else path)
      else if segment \<noteq> ''.'' then path @ [segment]
      else path)"

definition resolvePath :: "FileSystem \<Rightarrow> string \<Rightarrow> string list" where
  "resolvePath fileSystem inputPath =
     (if startsWith inputPath ''/'' then segments inputPath
      else foldl resolve_segment (currentPath fileSystem) (segments inputPath))"

subsection \<open>Tree store: the state updaters\<close>

text \<open>
  Every updater copies the tree, replays \<^verbatim>\<open>prev.currentPath\<close> on the copy without any
  check (\<^verbatim>\<open>current = current.children[segment]\<close>) and edits the node it reaches.
  \<open>update_at path f\<close> is that replay followed by the edit \<open>f\<close>; reading a property
  of \<^verbatim>\<open>undefined\<close> throws, which is \<open>None\<close>. When the replay steps onto an inherited
  value, the edit is made on that built-in object and the copy stays as it is (every edit
  of this file throws there, since a built-in value has no \<^verbatim>\<open>children\<close>).
\<close>

fun update_at ::
  "string list \<Rightarrow> (FileSystemItem \<Rightarrow> FileSystemItem option) \<Rightarrow> FileSystemItem \<Rightarrow> FileSystemItem option" where
  "update_at [] f current = f current"
| "update_at (segment # path) f current =
     (case children current of
        None \<Rightarrow> None
      | Some cs \<Rightarrow>
          (case map_of cs segment of
             Some child \<Rightarrow>
               (case update_at path f child of
                  None \<Rightarrow> None
                | Some child' \<Rightarrow> Some (set_children current (AList.update segment child' cs)))
           | None \<Rightarrow>
               (case inherited segment of
                  None \<Rightarrow> None
                | Some builtin \<Rightarrow>
                    (case update_at path f builtin of None \<Rightarrow> None | Some _ \<Rightarrow> Some current))))"

definition success :: "string \<Rightarrow> FileSystem \<Rightarrow> (CommandResult \<times> FileSystem) option" where
  "success out fileSystem = Some (\<lparr>output = out, error = False\<rparr>, fileSystem)"

definition failure :: "string \<Rightarrow> FileSystem \<Rightarrow> (CommandResult \<times> FileSystem) option" where
  "failure out fileSystem = Some (\<lparr>output = out, error = True\<rparr>, fileSystem)"

text \<open>\<^verbatim>\<open>setFileSystem(prev => ...)\<close> followed by \<^verbatim>\<open>return { output: '' }\<close>.\<close>

definition commit ::
  "FileSystem \<Rightarrow> (FileSystemItem \<Rightarrow> FileSystemItem option) \<Rightarrow> (CommandResult \<times> FileSystem) option" where
  "commit prev f =
     (case update_at (currentPath prev) f (root prev) of
        None \<Rightarrow> None
      | Some r \<Rightarrow> Some (\<lparr>output = [], error = False\<rparr>, prev\<lparr>root := r\<rparr>))"

text \<open>
  The write \<^verbatim>\<open>current.children[k] = item\<close> makes or replaces an own key. Every command
  writes a key only after the read of that key on the same node was falsy, so the write
  never meets the setter that the name \<^verbatim>\<open>__proto__\<close> inherits.
\<close>

definition mkdir_update :: "string \<Rightarrow> timestamp \<Rightarrow> FileSystemItem \<Rightarrow> FileSystemItem option" where
  "mkdir_update a now current =
     (case children current of
        None \<Rightarrow> None
      | Some cs \<Rightarrow>
          Some (set_modified
            (set_children current
               (AList.update a (FileSystemItem a Directory None (Some []) (Some now) (Some now)) cs))
            now))"

text \<open>
  \<^verbatim>\<open>touch\<close> stamps what the read of the name finds: an own child, or the built-in value
  of an inherited name, which leaves the children as they are. It makes a file only when
  the read finds nothing.
\<close>

definition touch_update :: "string \<Rightarrow> timestamp \<Rightarrow> FileSystemItem \<Rightarrow> FileSystemItem option" where
  "touch_update a now current =
     (case children current of
        None \<Rightarrow> None
      | Some cs \<Rightarrow>
          Some (set_modified
            (set_children current
               (case map_of cs a of
                  Some child \<Rightarrow> AList.update a (set_modified child now) cs
                | None \<Rightarrow>
                    (case inherited a of
                       Some builtin \<Rightarrow> cs
                     | None \<Rightarrow>
                         AList.update a (FileSystemItem a File (Some []) None (Some now) (Some now)) cs)))
            now))"

text \<open>The updater of \<^verbatim>\<open>rm\<close> and of \<^verbatim>\<open>rmdir\<close>.\<close>

definition delete_update :: "string \<Rightarrow> timestamp \<Rightarrow> FileSystemItem \<Rightarrow> FileSystemItem option" where
  "delete_update a now current =
     (case children current of
        None \<Rightarrow> None
      | Some cs \<Rightarrow> Some (set_modified (set_children current (AList.delete a cs)) now))"

text \<open>
  The spread \<^verbatim>\<open>{ ...current.children[k] }\<close> of \<open>mv\<close> and \<open>cp\<close>: the own properties of
  an own child; nothing for an inherited value and for \<^verbatim>\<open>undefined\<close>. The \<open>name\<close> of the
  result is overwritten by both commands.
\<close>

definition spread :: "(string \<times> FileSystemItem) list \<Rightarrow> string \<Rightarrow> FileSystemItem" where
  "spread cs k =
     (case map_of cs k of
        Some item \<Rightarrow> item
      | None \<Rightarrow> FileSystemItem [] Absent None None None None)"

definition mv_update :: "string \<Rightarrow> string \<Rightarrow> timestamp \<Rightarrow> FileSystemItem \<Rightarrow> FileSystemItem option" where
  "mv_update a b now current =
     (case children current of
        None \<Rightarrow> None
      | Some cs \<Rightarrow>
          Some (set_modified
            (set_children current (AList.delete a (AList.update b (set_name (spread cs a) b) cs)))
            now))"

definition cp_update :: "string \<Rightarrow> string \<Rightarrow> timestamp \<Rightarrow> FileSystemItem \<Rightarrow> FileSystemItem option" where
  "cp_update a b now current =
     (case children current of
        None \<Rightarrow> None
      | Some cs \<Rightarrow>
          Some (set_modified
            (set_children current
               (AList.update b
                  (FileSystemItem b (type (spread cs a)) (content (spread cs a)) (children (spread cs a))
                     (Some now) (Some now))
                  cs))
            now))"

subsection \<open>The listing of \<^verbatim>\<open>ls\<close>\<close>

text \<open>The comparator given to \<^verbatim>\<open>sort\<close>.\<close>

definition ls_compare :: "Platform \<Rightarrow> FileSystemItem \<Rightarrow> FileSystemItem \<Rightarrow> int" where
  "ls_compare P a b =
     (if type a \<noteq> type b then (if type a = Directory then - 1 else 1)
      else localeCompare P (name a) (name b))"

text \<open>
  \<^verbatim>\<open>Array.prototype.sort\<close> is the field \<open>arraySort\<close> of the platform: the language
  fixes its result (the stable sorted arrangement) only for a comparator that is
  consistent on the elements, and leaves it to the engine otherwise. \<open>consistent_on\<close> is
  the condition of the language definition, and \<open>sort_by\<close>, a stable insertion sort,
  computes the stable sorted arrangement.
\<close>

definition consistent_on :: "('a \<Rightarrow> 'a \<Rightarrow> int) \<Rightarrow> 'a list \<Rightarrow> bool" where
  "consistent_on cmp xs =
     (\<forall>a \<in> set xs. \<forall>b \<in> set xs. \<forall>c \<in> set xs.
        cmp a a = 0
        \<and> (cmp a b = 0 \<longrightarrow> cmp b a = 0)
        \<and> (cmp a b = 0 \<and> cmp b c = 0 \<longrightarrow> cmp a c = 0)
        \<and> (cmp a b < 0 \<and> cmp b c < 0 \<longrightarrow> cmp a c < 0)
        \<and> (0 < cmp a b \<and> 0 < cmp b c \<longrightarrow> 0 < cmp a c))"

fun insert_by :: "('a \<Rightarrow> 'a \<Rightarrow> int) \<Rightarrow> 'a \<Rightarrow> 'a list \<Rightarrow> 'a list" where
  "insert_by cmp x [] = [x]"
| "insert_by cmp x (y # ys) = (if cmp x y \<le> 0 then x # y # ys else y # insert_by cmp x ys)"

fun sort_by :: "('a \<Rightarrow> 'a \<Rightarrow> int) \<Rightarrow> 'a list \<Rightarrow> 'a list" where
  "sort_by cmp [] = []"
| "sort_by cmp (x # xs) = insert_by cmp x (sort_by cmp xs)"

text \<open>
  An array index: the canonical decimal form of an integer below \<open>2^32 - 1\<close>, which is
  \<open>4294967295\<close>. Two such forms are in the order of their integers when the shorter one
  comes first and, at equal length, the one that is smaller as a string.
\<close>

definition is_array_index :: "string \<Rightarrow> bool" where
  "is_array_index k =
     (k \<noteq> [] \<and> list_all (\<lambda>c. CHR ''0'' \<le> c \<and> c \<le> CHR ''9'') k
      \<and> (k = ''0'' \<or> take 1 k \<noteq> ''0'')
      \<and> (length k < 10 \<or> (length k = 10 \<and> k < ''4294967295'')))"

definition index_compare :: "string \<Rightarrow> string \<Rightarrow> int" where
  "index_compare a b =
     (if length a < length b then - 1
      else if length b < length a then 1
      else if a < b then - 1
      else if a = b then 0
      else 1)"

text \<open>
  \<^verbatim>\<open>Object.values(obj)\<close>: the values of the keys that are array indices in ascending
  order, then the values of the other keys in the order of their creation.
\<close>

definition object_values :: "(string \<times> FileSystemItem) list \<Rightarrow> FileSystemItem list" where
  "object_values cs =
     map snd (sort_by (\<lambda>x y. index_compare (fst x) (fst y)) (filter (\<lambda>entry. is_array_index (fst entry)) cs))
     @ map snd (filter (\<lambda>entry. \<not> is_array_index (fst entry)) cs)"

definition ls_items :: "Platform \<Rightarrow> (string \<times> FileSystemItem) list \<Rightarrow> FileSystemItem list" where
  "ls_items P cs = arraySort P (ls_compare P) (filter (\<lambda>item. name item \<noteq> []) (object_values cs))"

text \<open>
  The date column is \<^verbatim>\<open>new Date(item.modified || item.created || new Date())\<close>: the clock
  for an item without dates.
\<close>

definition ls_line :: "Platform \<Rightarrow> timestamp \<Rightarrow> FileSystemItem \<Rightarrow> string" where
  "ls_line P now item =
     (let prefix = (if type item = Directory then ''d'' else ''-'');
          size = (if type item = File
                  then padStart 8 (toString (case content item of None \<Rightarrow> 0 | Some c \<Rightarrow> length c))
                  else ''     dir'');
          date = toLocaleDateString P
                   (case modified item of
                      Some m \<Rightarrow> m
                    | None \<Rightarrow> (case created item of Some c \<Rightarrow> c | None \<Rightarrow> now));
          shown = (if type item = Directory
                   then [CHR 0x1B] @ ''[34m'' @ name item @ ''/'' @ [CHR 0x1B] @ ''[0m''
                   else name item)
      in prefix @ ''rwxr-xr-x 1 user user '' @ size @ '' '' @ date @ '' '' @ shown)"

subsection \<open>The text of \<^verbatim>\<open>help\<close> and of \<^verbatim>\<open>curl\<close>\<close>

definition help_text :: string where
  "help_text = join [CHR 0x0A]
     [''Available commands:'',
      ''  mkdir <dirname>    - Create a directory'',
      ''  ls [path]          - List directory contents'',
      ''  cd <path>          - Change directory'',
      ''  rmdir <dirname>    - Remove empty directory'',
      ''  rm <filename>      - Remove file'',
      ''  touch <filename>   - Create empty file'',
      ''  mv <src> <dest>    - Move/rename file or directory'',
      ''  cp <src> <dest>    - Copy file or directory'',
      ''  curl <url>         - Fetch data from URL (simulated)'',
      ''  pwd                - Print working directory'',
      ''  cat <filename>     - Display file content'',
      ''  clear              - Clear terminal'',
      ''  help               - Show this help message'']"

definition hex_digit :: "nat \<Rightarrow> char" where
  "hex_digit d = (if d < 10 then char_of (48 + d) else char_of (87 + d))"

text \<open>The escape of one code unit in the string literals written by \<^verbatim>\<open>JSON.stringify\<close>.\<close>

definition json_escape :: "char \<Rightarrow> string" where
  "json_escape c =
     (if c = CHR 0x08 then [CHR 0x5C, CHR ''b'']
      else if c = CHR 0x09 then [CHR 0x5C, CHR ''t'']
      else if c = CHR 0x0A then [CHR 0x5C, CHR ''n'']
      else if c = CHR 0x0C then [CHR 0x5C, CHR ''f'']
      else if c = CHR 0x0D then [CHR 0x5C, CHR ''r'']
      else if c = CHR 0x22 then [CHR 0x5C, CHR 0x22]
      else if c = CHR 0x5C then [CHR 0x5C, CHR 0x5C]
      else if (of_char c :: nat) < 32
        then [CHR 0x5C, CHR ''u'', CHR ''0'', CHR ''0'',
              hex_digit (of_char c div 16), hex_digit (of_char c mod 16)]
      else [c])"

definition json_string :: "string \<Rightarrow> string" where
  "json_string s = [CHR 0x22] @ concat (map json_escape s) @ [CHR 0x22]"

text \<open>\<^verbatim>\<open>JSON.stringify({message, url, timestamp, data: {id, name}}, null, 2)\<close>\<close>

definition curl_json :: "Platform \<Rightarrow> timestamp \<Rightarrow> string \<Rightarrow> string" where
  "curl_json P now url = join [CHR 0x0A]
     [''{'',
      ''  '' @ json_string ''message'' @ '': '' @ json_string ''Simulated API response'' @ '','',
      ''  '' @ json_string ''url'' @ '': '' @ json_string url @ '','',
      ''  '' @ json_string ''timestamp'' @ '': '' @ json_string (toISOString P now) @ '','',
      ''  '' @ json_string ''data'' @ '': {'',
      ''    '' @ json_string ''id'' @ '': 1,'',
      ''    '' @ json_string ''name'' @ '': '' @ json_string ''Sample Data'',
      ''  }'',
      ''}'']"

definition curl_html :: "Platform \<Rightarrow> timestamp \<Rightarrow> string \<Rightarrow> string" where
  "curl_html P now url = join [CHR 0x0A]
     [''<!DOCTYPE html>'',
      ''<html>'',
      ''<head><title>Simulated Response</title></head>'',
      ''<body>'',
      ''<h1>Web CLI Terminal</h1>'',
      ''<p>This is a simulated response for: '' @ url @ ''</p>'',
      ''<p>Timestamp: '' @ toLocaleString P now @ ''</p>'',
      ''</body>'',
      ''</html>'']"

subsection \<open>The commands\<close>

text \<open>
  Each definition is one \<^verbatim>\<open>case\<close> of the \<^verbatim>\<open>switch\<close> in \<^verbatim>\<open>executeCommand\<close>. An
  argument is missing (\<^verbatim>\<open>!args[i]\<close>) when it is \<^verbatim>\<open>undefined\<close> or the empty string.
\<close>

text \<open>\<^verbatim>\<open>args[1] ? resolvePath(args[1]) : fileSystem.currentPath\<close>\<close>

definition ls_target :: "FileSystem \<Rightarrow> string list \<Rightarrow> string list" where
  "ls_target fileSystem args =
     (case arg args 1 of
        None \<Rightarrow> currentPath fileSystem
      | Some a \<Rightarrow> if a = [] then currentPath fileSystem else resolvePath fileSystem a)"

definition exec_ls ::
  "Platform \<Rightarrow> timestamp \<Rightarrow> FileSystem \<Rightarrow> string list \<Rightarrow> (CommandResult \<times> FileSystem) option" where
  "exec_ls P now fileSystem args =
     (let targetPath = ls_target fileSystem args
      in case getItemAtPath fileSystem targetPath of
           None \<Rightarrow>
             failure (''ls: cannot access '' @ quoted (show_arg (arg args 1)) @ '': No such file or directory'')
               fileSystem
         | Some targetDir \<Rightarrow>
             if type targetDir \<noteq> Directory
             then failure (''ls: cannot access '' @ quoted (show_arg (arg args 1)) @ '': Not a directory'')
                    fileSystem
             else (case children targetDir of
                     None \<Rightarrow> success [] fileSystem
                   | Some cs \<Rightarrow>
                       if length cs = 0 then success [] fileSystem
                       else success (join [CHR 0x0A] (map (ls_line P now) (ls_items P cs))) fileSystem))"

definition exec_cd :: "FileSystem \<Rightarrow> string list \<Rightarrow> (CommandResult \<times> FileSystem) option" where
  "exec_cd fileSystem args =
     (case arg args 1 of
        None \<Rightarrow> success [] (fileSystem\<lparr>currentPath := [''home'', ''user'']\<rparr>)
      | Some a \<Rightarrow>
          if a = [] then success [] (fileSystem\<lparr>currentPath := [''home'', ''user'']\<rparr>)
          else (let targetPath = resolvePath fileSystem a
                in case getItemAtPath fileSystem targetPath of
                     None \<Rightarrow> failure (''cd: '' @ a @ '': No such file or directory'') fileSystem
                   | Some targetDir \<Rightarrow>
                       if type targetDir \<noteq> Directory
                       then failure (''cd: '' @ a @ '': Not a directory'') fileSystem
                       else success [] (fileSystem\<lparr>currentPath := targetPath\<rparr>)))"

definition exec_mkdir :: "timestamp \<Rightarrow> FileSystem \<Rightarrow> string list \<Rightarrow> (CommandResult \<times> FileSystem) option" where
  "exec_mkdir now fileSystem args =
     (case arg args 1 of
        None \<Rightarrow> failure ''mkdir: missing operand'' fileSystem
      | Some a \<Rightarrow>
          if a = [] then failure ''mkdir: missing operand'' fileSystem
          else (case children (getCurrentDirectory fileSystem) of
                  None \<Rightarrow> failure ''mkdir: cannot create directory: Permission denied'' fileSystem
                | Some cs \<Rightarrow>
                    if property cs a \<noteq> None
                    then failure (''mkdir: cannot create directory '' @ quoted a @ '': File exists'') fileSystem
                    else commit fileSystem (mkdir_update a now)))"

definition exec_touch :: "timestamp \<Rightarrow> FileSystem \<Rightarrow> string list \<Rightarrow> (CommandResult \<times> FileSystem) option" where
  "exec_touch now fileSystem args =
     (case arg args 1 of
        None \<Rightarrow> failure ''touch: missing file operand'' fileSystem
      | Some a \<Rightarrow>
          if a = [] then failure ''touch: missing file operand'' fileSystem
          else (case children (getCurrentDirectory fileSystem) of
                  None \<Rightarrow> failure ''touch: cannot create file: Permission denied'' fileSystem
                | Some cs \<Rightarrow> commit fileSystem (touch_update a now)))"

definition exec_rm :: "timestamp \<Rightarrow> FileSystem \<Rightarrow> string list \<Rightarrow> (CommandResult \<times> FileSystem) option" where
  "exec_rm now fileSystem args =
     (case arg args 1 of
        None \<Rightarrow> failure ''rm: missing operand'' fileSystem
      | Some a \<Rightarrow>
          if a = [] then failure ''rm: missing operand'' fileSystem
          else (case Option.bind (children (getCurrentDirectory fileSystem)) (\<lambda>cs. property cs a) of
                  None \<Rightarrow>
                    failure (''rm: cannot remove '' @ quoted a @ '': No such file or directory'') fileSystem
                | Some item \<Rightarrow>
                    if type item = Directory
                    then failure (''rm: cannot remove '' @ quoted a @ '': Is a directory'') fileSystem
                    else commit fileSystem (delete_update a now)))"

definition exec_rmdir :: "timestamp \<Rightarrow> FileSystem \<Rightarrow> string list \<Rightarrow> (CommandResult \<times> FileSystem) option" where
  "exec_rmdir now fileSystem args =
     (case arg args 1 of
        None \<Rightarrow> failure ''rmdir: missing operand'' fileSystem
      | Some a \<Rightarrow>
          if a = [] then failure ''rmdir: missing operand'' fileSystem
          else (case Option.bind (children (getCurrentDirectory fileSystem)) (\<lambda>cs. property cs a) of
                  None \<Rightarrow>
                    failure (''rmdir: failed to remove '' @ quoted a @ '': No such file or directory'')
                      fileSystem
                | Some targetDir \<Rightarrow>
                    if type targetDir \<noteq> Directory
                    then failure (''rmdir: failed to remove '' @ quoted a @ '': Not a directory'') fileSystem
                    else if (case children targetDir of None \<Rightarrow> False | Some tcs \<Rightarrow> length tcs > 0)
                    then failure (''rmdir: failed to remove '' @ quoted a @ '': Directory not empty'')
                           fileSystem
                    else commit fileSystem (delete_update a now)))"

definition exec_cat :: "FileSystem \<Rightarrow> string list \<Rightarrow> (CommandResult \<times> FileSystem) option" where
  "exec_cat fileSystem args =
     (case arg args 1 of
        None \<Rightarrow> failure ''cat: missing file operand'' fileSystem
      | Some a \<Rightarrow>
          if a = [] then failure ''cat: missing file operand'' fileSystem
          else (case Option.bind (children (getCurrentDirectory fileSystem)) (\<lambda>cs. property cs a) of
                  None \<Rightarrow> failure (''cat: '' @ a @ '': No such file or directory'') fileSystem
                | Some file \<Rightarrow>
                    if type file \<noteq> File
                    then failure (''cat: '' @ a @ '': Is a directory'') fileSystem
                    else success (case content file of None \<Rightarrow> [] | Some c \<Rightarrow> c) fileSystem))"

definition exec_curl ::
  "Platform \<Rightarrow> timestamp \<Rightarrow> FileSystem \<Rightarrow> string list \<Rightarrow> (CommandResult \<times> FileSystem) option" where
  "exec_curl P now fileSystem args =
     (case arg args 1 of
        None \<Rightarrow> failure ''curl: no URL specified'' fileSystem
      | Some url \<Rightarrow>
          if url = [] then failure ''curl: no URL specified'' fileSystem
          else if \<not> (startsWith url ''http://'' \<or> startsWith url ''https://'')
          then failure ''curl: (1) Protocol not supported or disabled in libcurl'' fileSystem
          else if str_includes url ''api'' \<or> str_includes url ''json''
          then success (curl_json P now url) fileSystem
          else success (curl_html P now url) fileSystem)"

text \<open>\<^verbatim>\<open>!args[1] || !args[2]\<close>\<close>

definition two_args :: "string list \<Rightarrow> (string \<times> string) option" where
  "two_args args =
     (case arg args 1 of
        None \<Rightarrow> None
      | Some a \<Rightarrow>
          if a = [] then None
          else (case arg args 2 of None \<Rightarrow> None | Some b \<Rightarrow> if b = [] then None else Some (a, b)))"

definition exec_mv :: "timestamp \<Rightarrow> FileSystem \<Rightarrow> string list \<Rightarrow> (CommandResult \<times> FileSystem) option" where
  "exec_mv now fileSystem args =
     (case two_args args of
        None \<Rightarrow> failure ''mv: missing file operand'' fileSystem
      | Some (a, b) \<Rightarrow>
          (case children (getCurrentDirectory fileSystem) of
             None \<Rightarrow> failure (''mv: cannot stat '' @ quoted a @ '': No such file or directory'') fileSystem
           | Some cs \<Rightarrow>
               if property cs a = None
               then failure (''mv: cannot stat '' @ quoted a @ '': No such file or directory'') fileSystem
               else if property cs b \<noteq> None
               then failure (''mv: cannot move '' @ quoted a @ '' to '' @ quoted b @ '': File exists'')
                      fileSystem
               else commit fileSystem (mv_update a b now)))"

definition exec_cp :: "timestamp \<Rightarrow> FileSystem \<Rightarrow> string list \<Rightarrow> (CommandResult \<times> FileSystem) option" where
  "exec_cp now fileSystem args =
     (case two_args args of
        None \<Rightarrow> failure ''cp: missing file operand'' fileSystem
      | Some (a, b) \<Rightarrow>
          (case children (getCurrentDirectory fileSystem) of
             None \<Rightarrow> failure (''cp: cannot stat '' @ quoted a @ '': No such file or directory'') fileSystem
           | Some cs \<Rightarrow>
               (case property cs a of
                  None \<Rightarrow>
                    failure (''cp: cannot stat '' @ quoted a @ '': No such file or directory'') fileSystem
                | Some sourceItem \<Rightarrow>
                    if property cs b \<noteq> None
                    then failure (''cp: cannot create regular file '' @ quoted b @ '': File exists'')
                           fileSystem
                    else if type sourceItem = Directory
                    then failure (''cp: -r not specified; omitting directory '' @ quoted a) fileSystem
                    else commit fileSystem (cp_update a b now))))"

definition supportedCommands :: "string list" where
  "supportedCommands =
     [''mkdir'', ''ls'', ''cd'', ''rmdir'', ''rm'', ''touch'', ''mv'', ''cp'', ''curl'', ''pwd'', ''cat'',
      ''help'', ''clear'']"

text \<open>The \<^verbatim>\<open>switch\<close> on a supported command.\<close>

definition dispatch ::
  "Platform \<Rightarrow> timestamp \<Rightarrow> FileSystem \<Rightarrow> string \<Rightarrow> string list \<Rightarrow> (CommandResult \<times> FileSystem) option" where
  "dispatch P now fileSystem command args =
     (if command = ''help'' then success help_text fileSystem
      else if command = ''clear'' then success ''CLEAR_TERMINAL'' fileSystem
      else if command = ''pwd'' then success (''/'' @ join ''/'' (currentPath fileSystem)) fileSystem
      else if command = ''ls'' then exec_ls P now fileSystem args
      else if command = ''cd'' then exec_cd fileSystem args
      else if command = ''mkdir'' then exec_mkdir now fileSystem args
      else if command = ''touch'' then exec_touch now fileSystem args
      else if command = ''rm'' then exec_rm now fileSystem args
      else if command = ''rmdir'' then exec_rmdir now fileSystem args
      else if command = ''cat'' then exec_cat fileSystem args
      else if command = ''curl'' then exec_curl P now fileSystem args
      else if command = ''mv'' then exec_mv now fileSystem args
      else if command = ''cp'' then exec_cp now fileSystem args
      else failure (''Command not recognized: '' @ command) fileSystem)"

definition executeCommand ::
  "Platform \<Rightarrow> timestamp \<Rightarrow> FileSystem \<Rightarrow> string \<Rightarrow> (CommandResult \<times> FileSystem) option" where
  "executeCommand P now fileSystem input =
     (let args = split_ws (trim input)
      in case arg args 0 of
           None \<Rightarrow> success [] fileSystem
         | Some command \<Rightarrow>
             if command = [] then success [] fileSystem
             else if command \<notin> set supportedCommands
             then failure (''Command not recognized: '' @ command) fileSystem
             else dispatch P now fileSystem command args)"

subsection \<open>Runs and example platforms\<close>

text \<open>
  The states visited by a sequence of commands, each executed at its own clock reading.
  A command whose updater throws ends the session: no state follows it.
\<close>

fun states :: "Platform \<Rightarrow> FileSystem \<Rightarrow> (timestamp \<times> string) list \<Rightarrow> FileSystem list" where
  "states P s [] = [s]"
| "states P s ((t, l) # rest) =
     s # (case executeCommand P t s l of None \<Rightarrow> [] | Some (r, s') \<Rightarrow> states P s' rest)"

text \<open>The comparison of two strings by their code units.\<close>

definition plain_compare :: "string \<Rightarrow> string \<Rightarrow> int" where
  "plain_compare a b = (if a < b then - 1 else if a = b then 0 else 1)"

definition to_lower :: "char \<Rightarrow> char" where
  "to_lower c = (if CHR ''A'' \<le> c \<and> c \<le> CHR ''Z'' then char_of (of_char c + (32 :: nat)) else c)"

text \<open>
  A collation that does not distinguish the case of the ASCII letters, as the collations
  of the locales of a browser do at their first level: there \<^verbatim>\<open>'a'.localeCompare('B')\<close>
  is negative although the code unit of \<^verbatim>\<open>B\<close> is the smaller one.
\<close>

definition caseless_compare :: "string \<Rightarrow> string \<Rightarrow> int" where
  "caseless_compare a b = plain_compare (map to_lower a) (map to_lower b)"

text \<open>
  A platform for the concrete runs below. Its date formats print the milliseconds in
  decimal; no statement below depends on the format of a date. Its sort is the stable
  insertion sort.
\<close>

definition example_platform :: Platform where
  "example_platform =
     \<lparr>localeCompare = caseless_compare,
      toLocaleDateString = toString,
      toLocaleString = toString,
      toISOString = toString,
      arraySort = sort_by\<rparr>"

text \<open>The command name of an input line: \<^verbatim>\<open>args[0]\<close>.\<close>

definition command_of :: "string \<Rightarrow> string" where
  "command_of input = (case split_ws (trim input) of [] \<Rightarrow> [] | c # _ \<Rightarrow> c)"

text \<open>The root exists under the empty name, as a directory with a children mapping.\<close>

definition root_ok :: "FileSystem \<Rightarrow> bool" where
  "root_ok s = (name (root s) = [] \<and> type (root s) = Directory \<and> children (root s) \<noteq> None)"

text \<open>A token of an input line: a non-empty string without white space.\<close>

definition is_token :: "string \<Rightarrow> bool" where
  "is_token t = (t \<noteq> [] \<and> (\<forall>c \<in> set t. \<not> is_space c))"

text \<open>
  The number of arguments that a command reads: none for \<^verbatim>\<open>help\<close>, \<^verbatim>\<open>clear\<close> and
  \<^verbatim>\<open>pwd\<close>, two for \<^verbatim>\<open>mv\<close> and \<^verbatim>\<open>cp\<close>, one for the others.
\<close>

definition consumed :: "string \<Rightarrow> nat" where
  "consumed command =
     (if command \<in> {''help'', ''clear'', ''pwd''} then 0
      else if command \<in> {''mv'', ''cp''} then 2
      else 1)"

text \<open>The child of the current directory under a name: \<^verbatim>\<open>currentDir.children[name]\<close>.\<close>

definition current_child :: "FileSystem \<Rightarrow> string \<Rightarrow> FileSystemItem option" where
  "current_child s n = Option.bind (children (getCurrentDirectory s)) (\<lambda>cs. map_of cs n)"

text \<open>The number of children of an item; none when it has no children mapping.\<close>

definition child_count :: "FileSystemItem \<Rightarrow> nat" where
  "child_count item = (case children item of None \<Rightarrow> 0 | Some cs \<Rightarrow> length cs)"

text \<open>
  An item with its dates, and the dates of the items below it, replaced by the epoch: what
  is left of a tree when the readings of the clock are disregarded.
\<close>

primrec erase_stamps :: "FileSystemItem \<Rightarrow> FileSystemItem" where
  "erase_stamps (FileSystemItem n t c ch cr m) =
     FileSystemItem n t c (map_option (map (map_prod id erase_stamps)) ch)
       (map_option (\<lambda>_. 0) cr) (map_option (\<lambda>_. 0) m)"




section \<open>A failing command leaves the state as it was\<close>

lemma success_unchanged: "success out fs = Some (r, s') \<Longrightarrow> error r \<Longrightarrow> s' = fs"
  by (auto simp: success_def)

lemma failure_unchanged: "failure out fs = Some (r, s') \<Longrightarrow> s' = fs"
  by (auto simp: failure_def)

lemma commit_no_error: "commit fs f = Some (r, s') \<Longrightarrow> \<not> error r"
  by (auto simp: commit_def split: option.splits)

lemma exec_ls_unchanged: "exec_ls P now fs args = Some (r, s') \<Longrightarrow> s' = fs"
  by (auto simp: exec_ls_def Let_def success_def failure_def split: option.splits if_splits)

lemma exec_cd_error: "exec_cd fs args = Some (r, s') \<Longrightarrow> error r \<Longrightarrow> s' = fs"
  by (auto simp: exec_cd_def Let_def success_def failure_def split: option.splits if_splits)

lemma exec_mkdir_error: "exec_mkdir now fs args = Some (r, s') \<Longrightarrow> error r \<Longrightarrow> s' = fs"
  by (auto simp: exec_mkdir_def failure_def dest: commit_no_error split: option.splits if_splits)

lemma exec_touch_error: "exec_touch now fs args = Some (r, s') \<Longrightarrow> error r \<Longrightarrow> s' = fs"
  by (auto simp: exec_touch_def failure_def dest: commit_no_error split: option.splits if_splits)

lemma exec_rm_error: "exec_rm now fs args = Some (r, s') \<Longrightarrow> error r \<Longrightarrow> s' = fs"
  by (auto simp: exec_rm_def failure_def dest: commit_no_error split: option.splits if_splits)

lemma exec_rmdir_error: "exec_rmdir now fs args = Some (r, s') \<Longrightarrow> error r \<Longrightarrow> s' = fs"
  by (auto simp: exec_rmdir_def failure_def dest: commit_no_error split: option.splits if_splits)

lemma exec_cat_unchanged: "exec_cat fs args = Some (r, s') \<Longrightarrow> s' = fs"
  by (auto simp: exec_cat_def success_def failure_def split: option.splits if_splits)

lemma exec_curl_unchanged: "exec_curl P now fs args = Some (r, s') \<Longrightarrow> s' = fs"
  by (auto simp: exec_curl_def success_def failure_def split: option.splits if_splits)

lemma exec_mv_error: "exec_mv now fs args = Some (r, s') \<Longrightarrow> error r \<Longrightarrow> s' = fs"
  by (auto simp: exec_mv_def failure_def dest: commit_no_error split: option.splits if_splits)

lemma exec_cp_error: "exec_cp now fs args = Some (r, s') \<Longrightarrow> error r \<Longrightarrow> s' = fs"
  by (auto simp: exec_cp_def failure_def dest: commit_no_error split: option.splits if_splits)

lemma dispatch_error: "dispatch P now fs command args = Some (r, s') \<Longrightarrow> error r \<Longrightarrow> s' = fs"
  unfolding dispatch_def
  by (auto split: if_splits
      dest: success_unchanged failure_unchanged exec_ls_unchanged exec_cd_error exec_mkdir_error
        exec_touch_error exec_rm_error exec_rmdir_error exec_cat_unchanged exec_curl_unchanged
        exec_mv_error exec_cp_error)

text \<open>
  Claim C1. For every platform, clock reading, state and input line: when the execution
  returns a result whose error flag is set, the file system after the call (tree and
  current path) is the file system before the call.
\<close>

theorem failing_command_leaves_state:
  "executeCommand P now s l = Some (r, s') \<Longrightarrow> error r \<Longrightarrow> s' = s"
  unfolding executeCommand_def Let_def
  by (auto split: option.splits if_splits dest: success_unchanged failure_unchanged dispatch_error)

theorem failing_command_leaves_state_witness:
  "executeCommand example_platform 1 (createInitialFileSystem 0) ''cd /nope''
     = Some (\<lparr>output = ''cd: /nope: No such file or directory'', error = True\<rparr>,
             createInitialFileSystem 0)
   \<and> error \<lparr>output = ''cd: /nope: No such file or directory'', error = True\<rparr>
   \<and> createInitialFileSystem 0 = createInitialFileSystem 0"
proof -
  have run: "executeCommand example_platform 1 (createInitialFileSystem 0) ''cd /nope''
     = Some (\<lparr>output = ''cd: /nope: No such file or directory'', error = True\<rparr>,
             createInitialFileSystem 0)"
    by code_simp
  have flag: "error \<lparr>output = ''cd: /nope: No such file or directory'', error = True\<rparr>"
    by simp
  from failing_command_leaves_state [OF run flag] run flag show ?thesis
    by simp
qed

section \<open>The path resolver\<close>

text \<open>
  The branch for a relative input interprets \<open>.\<close> and \<open>..\<close>: from a current path
  without such entries it returns a path without them.
\<close>

lemma resolve_segment_plain:
  assumes "\<forall>seg \<in> set path. seg \<noteq> [] \<and> seg \<noteq> ''.'' \<and> seg \<noteq> ''..''" and "segment \<noteq> []"
  shows "\<forall>seg \<in> set (resolve_segment path segment). seg \<noteq> [] \<and> seg \<noteq> ''.'' \<and> seg \<noteq> ''..''"
  using assms by (auto simp: resolve_segment_def dest: in_set_butlastD)

lemma foldl_resolve_segment_plain:
  assumes "\<forall>seg \<in> set path. seg \<noteq> [] \<and> seg \<noteq> ''.'' \<and> seg \<noteq> ''..''" and "\<forall>seg \<in> set segs. seg \<noteq> []"
  shows "\<forall>seg \<in> set (foldl resolve_segment path segs). seg \<noteq> [] \<and> seg \<noteq> ''.'' \<and> seg \<noteq> ''..''"
  using assms
proof (induction segs arbitrary: path)
  case Nil
  then show ?case by simp
next
  case (Cons x segs)
  from Cons.prems have "\<forall>seg \<in> set (resolve_segment path x). seg \<noteq> [] \<and> seg \<noteq> ''.'' \<and> seg \<noteq> ''..''"
    by (intro resolve_segment_plain) auto
  with Cons.IH [of "resolve_segment path x"] Cons.prems show ?case by simp
qed

lemma resolvePath_relative_plain:
  assumes rel: "\<not> startsWith inputPath ''/''"
    and plain: "\<forall>seg \<in> set (currentPath fs). seg \<noteq> [] \<and> seg \<noteq> ''.'' \<and> seg \<noteq> ''..''"
  shows "\<forall>seg \<in> set (resolvePath fs inputPath). seg \<noteq> [] \<and> seg \<noteq> ''.'' \<and> seg \<noteq> ''..''"
proof -
  have segs: "\<forall>seg \<in> set (segments inputPath). seg \<noteq> []"
    by (simp add: segments_def)
  have "resolvePath fs inputPath = foldl resolve_segment (currentPath fs) (segments inputPath)"
    using rel by (simp add: resolvePath_def)
  with foldl_resolve_segment_plain [OF plain segs] show ?thesis
    by (simp only:)
qed

text \<open>
  Claim C2 says that no resolved path has an entry \<open>..\<close>. The branch for an absolute
  input only splits and drops the empty segments; unlike the branch for a relative input
  it does not interpret \<open>.\<close> and \<open>..\<close>. At \<^verbatim>\<open>/home/user/../tmp\<close> the result keeps \<open>..\<close>.
\<close>

theorem resolvePath_absolute_keeps_dotdot:
  "resolvePath (createInitialFileSystem 0) ''/home/user/../tmp'' = [''home'', ''user'', ''..'', ''tmp'']
   \<and> ''..'' \<in> set (resolvePath (createInitialFileSystem 0) ''/home/user/../tmp'')"
  by (simp add: resolvePath_def startsWith_def segments_def)

section \<open>The root node\<close>

lemma update_at_keeps_node:
  assumes "update_at p f r = Some r'"
    and "\<And>i i'. f i = Some i' \<Longrightarrow> name i' = name i \<and> type i' = type i \<and> children i' \<noteq> None"
  shows "name r' = name r \<and> type r' = type r \<and> children r' \<noteq> None"
  using assms by (cases p) (auto simp: set_children_def split: option.splits)

lemma mkdir_update_keeps:
  "mkdir_update a now i = Some i' \<Longrightarrow> name i' = name i \<and> type i' = type i \<and> children i' \<noteq> None"
  by (auto simp: mkdir_update_def set_children_def set_modified_def split: option.splits)

lemma touch_update_keeps:
  "touch_update a now i = Some i' \<Longrightarrow> name i' = name i \<and> type i' = type i \<and> children i' \<noteq> None"
  by (auto simp: touch_update_def set_children_def set_modified_def split: option.splits)

lemma delete_update_keeps:
  "delete_update a now i = Some i' \<Longrightarrow> name i' = name i \<and> type i' = type i \<and> children i' \<noteq> None"
  by (auto simp: delete_update_def set_children_def set_modified_def split: option.splits)

lemma mv_update_keeps:
  "mv_update a b now i = Some i' \<Longrightarrow> name i' = name i \<and> type i' = type i \<and> children i' \<noteq> None"
  by (auto simp: mv_update_def set_children_def set_modified_def split: option.splits)

lemma cp_update_keeps:
  "cp_update a b now i = Some i' \<Longrightarrow> name i' = name i \<and> type i' = type i \<and> children i' \<noteq> None"
  by (auto simp: cp_update_def set_children_def set_modified_def split: option.splits)

lemma commit_root_ok:
  assumes "commit s f = Some (r, s')" and "root_ok s"
    and "\<And>i i'. f i = Some i' \<Longrightarrow> name i' = name i \<and> type i' = type i \<and> children i' \<noteq> None"
  shows "root_ok s'"
proof -
  from assms(1) obtain r' where u: "update_at (currentPath s) f (root s) = Some r'" and s': "s' = s\<lparr>root := r'\<rparr>"
    by (auto simp: commit_def split: option.splits)
  from update_at_keeps_node [OF u assms(3)] assms(2) s' show ?thesis
    by (simp add: root_ok_def)
qed

lemma exec_ls_root_ok: "exec_ls P now fs args = Some (r, s') \<Longrightarrow> root_ok fs \<Longrightarrow> root_ok s'"
  by (drule exec_ls_unchanged) simp

lemma exec_cd_root_ok: "exec_cd fs args = Some (r, s') \<Longrightarrow> root_ok fs \<Longrightarrow> root_ok s'"
  by (auto simp: exec_cd_def Let_def success_def failure_def root_ok_def split: option.splits if_splits)

lemma exec_mkdir_root_ok: "exec_mkdir now fs args = Some (r, s') \<Longrightarrow> root_ok fs \<Longrightarrow> root_ok s'"
  by (auto simp: exec_mkdir_def failure_def split: option.splits if_splits
      intro: commit_root_ok [OF _ _ mkdir_update_keeps])

lemma exec_touch_root_ok: "exec_touch now fs args = Some (r, s') \<Longrightarrow> root_ok fs \<Longrightarrow> root_ok s'"
  by (auto simp: exec_touch_def failure_def split: option.splits if_splits
      intro: commit_root_ok [OF _ _ touch_update_keeps])

lemma exec_rm_root_ok: "exec_rm now fs args = Some (r, s') \<Longrightarrow> root_ok fs \<Longrightarrow> root_ok s'"
  by (auto simp: exec_rm_def failure_def split: option.splits if_splits
      intro: commit_root_ok [OF _ _ delete_update_keeps])

lemma exec_rmdir_root_ok: "exec_rmdir now fs args = Some (r, s') \<Longrightarrow> root_ok fs \<Longrightarrow> root_ok s'"
  by (auto simp: exec_rmdir_def failure_def split: option.splits if_splits
      intro: commit_root_ok [OF _ _ delete_update_keeps])

lemma exec_cat_root_ok: "exec_cat fs args = Some (r, s') \<Longrightarrow> root_ok fs \<Longrightarrow> root_ok s'"
  by (drule exec_cat_unchanged) simp

lemma exec_curl_root_ok: "exec_curl P now fs args = Some (r, s') \<Longrightarrow> root_ok fs \<Longrightarrow> root_ok s'"
  by (drule exec_curl_unchanged) simp

lemma exec_mv_root_ok: "exec_mv now fs args = Some (r, s') \<Longrightarrow> root_ok fs \<Longrightarrow> root_ok s'"
  by (auto simp: exec_mv_def failure_def split: option.splits if_splits
      intro: commit_root_ok [OF _ _ mv_update_keeps])

lemma exec_cp_root_ok: "exec_cp now fs args = Some (r, s') \<Longrightarrow> root_ok fs \<Longrightarrow> root_ok s'"
  by (auto simp: exec_cp_def failure_def split: option.splits if_splits
      intro: commit_root_ok [OF _ _ cp_update_keeps])

lemma dispatch_root_ok: "dispatch P now fs command args = Some (r, s') \<Longrightarrow> root_ok fs \<Longrightarrow> root_ok s'"
  unfolding dispatch_def
  by (auto simp: success_def failure_def split: if_splits
      dest: exec_ls_root_ok exec_cd_root_ok exec_mkdir_root_ok
        exec_touch_root_ok exec_rm_root_ok exec_rmdir_root_ok exec_cat_root_ok exec_curl_root_ok
        exec_mv_root_ok exec_cp_root_ok)

lemma executeCommand_root_ok: "executeCommand P now s l = Some (r, s') \<Longrightarrow> root_ok s \<Longrightarrow> root_ok s'"
  unfolding executeCommand_def Let_def
  by (auto simp: success_def failure_def split: option.splits if_splits dest: dispatch_root_ok)

lemma states_root_ok: "root_ok s \<Longrightarrow> s' \<in> set (states P s cmds) \<Longrightarrow> root_ok s'"
proof (induction cmds arbitrary: s)
  case Nil
  then show ?case by simp
next
  case (Cons c cmds)
  obtain t l where c: "c = (t, l)" by (cases c)
  show ?case
  proof (cases "executeCommand P t s l")
    case None
    with Cons.prems c show ?thesis by simp
  next
    case (Some a)
    obtain r s1 where a: "a = (r, s1)" by (cases a)
    from Some a Cons.prems(1) have "root_ok s1" by (auto dest: executeCommand_root_ok)
    with Cons.IH [of s1] Cons.prems Some a c show ?thesis by auto
  qed
qed

lemma initial_root_ok: "root_ok (createInitialFileSystem t0)"
  by (simp add: root_ok_def createInitialFileSystem_def)

text \<open>
  Claim C6. In every state that a sequence of commands visits from the initial file
  system, whatever the clock readings, the root node is there under the empty name, is a
  directory and has a children mapping.
\<close>

theorem root_is_kept:
  "s \<in> set (states P (createInitialFileSystem t0) cmds) \<Longrightarrow>
     name (root s) = [] \<and> type (root s) = Directory \<and> children (root s) \<noteq> None"
  using states_root_ok [OF initial_root_ok] by (simp add: root_ok_def)

theorem root_is_kept_witness:
  "last (states example_platform (createInitialFileSystem 0)
           [(1, ''cd /''), (2, ''rm home''), (3, ''rmdir tmp''), (4, ''mv home ..''), (5, ''touch /'')])
     \<in> set (states example_platform (createInitialFileSystem 0)
           [(1, ''cd /''), (2, ''rm home''), (3, ''rmdir tmp''), (4, ''mv home ..''), (5, ''touch /'')])
   \<and> name (root (last (states example_platform (createInitialFileSystem 0)
           [(1, ''cd /''), (2, ''rm home''), (3, ''rmdir tmp''), (4, ''mv home ..''), (5, ''touch /'')]))) = []
   \<and> type (root (last (states example_platform (createInitialFileSystem 0)
           [(1, ''cd /''), (2, ''rm home''), (3, ''rmdir tmp''), (4, ''mv home ..''), (5, ''touch /'')]))) = Directory
   \<and> children (root (last (states example_platform (createInitialFileSystem 0)
           [(1, ''cd /''), (2, ''rm home''), (3, ''rmdir tmp''), (4, ''mv home ..''), (5, ''touch /'')]))) \<noteq> None"
proof -
  have mem: "last (states example_platform (createInitialFileSystem 0)
           [(1, ''cd /''), (2, ''rm home''), (3, ''rmdir tmp''), (4, ''mv home ..''), (5, ''touch /'')])
     \<in> set (states example_platform (createInitialFileSystem 0)
           [(1, ''cd /''), (2, ''rm home''), (3, ''rmdir tmp''), (4, ''mv home ..''), (5, ''touch /'')])"
    by code_simp
  from root_is_kept [OF mem] mem show ?thesis by simp
qed

section \<open>The current path\<close>

text \<open>\<^verbatim>\<open>cd\<close> with an argument installs a path only after looking it up.\<close>

lemma cd_with_argument_checks:
  assumes run: "exec_cd fs args = Some (r, s')" and a: "arg args 1 = Some a" and ne: "a \<noteq> []"
    and ok: "\<not> error r"
  shows "\<exists>d. getItemAtPath s' (currentPath s') = Some d \<and> type d = Directory"
proof (cases "getItemAtPath fs (resolvePath fs a)")
  case None
  with run a ne ok show ?thesis by (auto simp: exec_cd_def failure_def)
next
  case (Some d)
  show ?thesis
  proof (cases "type d = Directory")
    case True
    with run a ne Some have "s' = fs\<lparr>currentPath := resolvePath fs a\<rparr>"
      by (auto simp: exec_cd_def success_def)
    with Some True show ?thesis by (simp add: getItemAtPath_def)
  next
    case False
    with run a ne ok Some show ?thesis by (auto simp: exec_cd_def failure_def)
  qed
qed

text \<open>
  Claim C5 says that the current path always names a directory. \<^verbatim>\<open>cd\<close> with a path
  checks its target, but \<^verbatim>\<open>cd\<close> without an argument installs \<open>home/user\<close> without
  any check. After \<^verbatim>\<open>cd /\<close> and \<^verbatim>\<open>mv home house\<close> it leaves a current path whose
  first segment names nothing, and the updater of the next \<^verbatim>\<open>mkdir\<close> throws.
\<close>

theorem cd_without_argument_dangles:
  "(let s = last (states example_platform (createInitialFileSystem 0)
                 [(1, ''cd /''), (2, ''mv home house''), (3, ''cd'')])
    in length (states example_platform (createInitialFileSystem 0)
                 [(1, ''cd /''), (2, ''mv home house''), (3, ''cd'')]) = 4
     \<and> currentPath s = [''home'', ''user'']
     \<and> getItemAtPath s [''home''] = None
     \<and> executeCommand example_platform 4 s ''mkdir x'' = None)"
  by code_simp

section \<open>The clock\<close>



lemma map_values_delete:
  "map (map_prod id f) (AList.delete k cs) = AList.delete k (map (map_prod id f) cs)"
  by (induction cs) auto

lemma map_of_map_values: "map_of (map (map_prod id f) cs) k = map_option f (map_of cs k)"
  by (induction cs) auto

lemma erase_stamps_fields:
  "name (erase_stamps i) = name i" "type (erase_stamps i) = type i" "content (erase_stamps i) = content i"
  "children (erase_stamps i) = map_option (map (map_prod id erase_stamps)) (children i)"
  "created (erase_stamps i) = map_option (\<lambda>_. 0) (created i)"
  "modified (erase_stamps i) = map_option (\<lambda>_. 0) (modified i)"
  by (cases i; simp)+



lemma erase_set_name: "erase_stamps (set_name i n) = set_name (erase_stamps i) n"
  by (cases i) (simp add: set_name_def)



























lemma executeCommand_dispatch:
  "executeCommand P now s l =
     (if command_of l = [] then success [] s
      else if command_of l \<notin> set supportedCommands
      then failure (''Command not recognized: '' @ command_of l) s
      else dispatch P now s (command_of l) (split_ws (trim l)))"
  by (auto simp: executeCommand_def command_of_def arg_def Let_def split: list.splits)



section \<open>The tokens of an input line\<close>

lemma split_ws_not_Nil: "split_ws s \<noteq> []"
  by (induction s rule: split_ws.induct) (auto split: list.splits)

lemma split_ws_word:
  "\<forall>c \<in> set t. \<not> is_space c \<Longrightarrow> split_ws t = [t]"
  by (induction t) auto

lemma split_ws_word_space:
  "\<forall>c \<in> set t. \<not> is_space c \<Longrightarrow> is_space c \<Longrightarrow>
     split_ws (t @ c # rest) = t # split_ws (dropWhile is_space rest)"
  by (induction t) auto

lemma join_Cons: "ts \<noteq> [] \<Longrightarrow> join sep (t # ts) = t @ sep @ join sep ts"
  by (cases ts) auto

lemma hd_join: "is_token t \<Longrightarrow> hd (join sep (t # ts)) = hd t"
  by (cases ts) (auto simp: is_token_def)

lemma join_Cons_if: "join sep (t # ts) = (if ts = [] then t else t @ sep @ join sep ts)"
  by (cases ts) auto

lemma join_tokens_not_Nil: "ts \<noteq> [] \<Longrightarrow> \<forall>t \<in> set ts. is_token t \<Longrightarrow> join sep ts \<noteq> []"
  by (cases ts) (auto simp: is_token_def join_Cons_if)

lemma last_join:
  "ts \<noteq> [] \<Longrightarrow> \<forall>t \<in> set ts. is_token t \<Longrightarrow> last (join sep ts) = last (last ts)"
proof (induction sep ts rule: join.induct)
  case (3 sep x y ys)
  then have "join sep (y # ys) \<noteq> []" by (intro join_tokens_not_Nil) auto
  with 3 show ?case by simp
qed auto

lemma dropWhile_id: "s = [] \<or> \<not> P (hd s) \<Longrightarrow> dropWhile P s = s"
  by (cases s) auto

lemma split_ws_join:
  "ts \<noteq> [] \<Longrightarrow> \<forall>t \<in> set ts. is_token t \<Longrightarrow> split_ws (join '' '' ts) = ts"
proof (induction "'' ''" ts rule: join.induct)
  case 1
  then show ?case by simp
next
  case (2 x)
  then show ?case by (simp add: split_ws_word is_token_def)
next
  case (3 x y ys)
  have sp: "is_space CHR '' ''" by (simp add: is_space_def)
  from 3 have x: "\<forall>c \<in> set x. \<not> is_space c" by (simp add: is_token_def)
  from 3 have "\<not> is_space (hd (join '' '' (y # ys)))" by (simp add: hd_join) (simp add: is_token_def)
  then have "dropWhile is_space (join '' '' (y # ys)) = join '' '' (y # ys)"
    by (simp add: dropWhile_id)
  with 3 split_ws_word_space [OF x sp, of "join '' '' (y # ys)"] show ?case by simp
qed

lemma trim_id:
  assumes "s = [] \<or> (\<not> is_space (hd s) \<and> \<not> is_space (last s))"
  shows "trim s = s"
proof (cases "s = []")
  case True
  then show ?thesis by (simp add: trim_def)
next
  case False
  with assms have "dropWhile is_space s = s" by (simp add: dropWhile_id)
  moreover from False assms have "dropWhile is_space (rev s) = rev s"
    by (intro dropWhile_id) (simp add: hd_rev)
  ultimately show ?thesis by (simp add: trim_def)
qed

lemma trim_join:
  assumes "ts \<noteq> []" and "\<forall>t \<in> set ts. is_token t"
  shows "trim (join '' '' ts) = join '' '' ts"
proof -
  obtain t us where ts: "ts = t # us" using assms(1) by (cases ts) auto
  with assms have "\<not> is_space (hd (join '' '' ts))" by (simp add: hd_join) (simp add: is_token_def)
  moreover have "is_token (last ts)" using assms by simp
  then have "\<not> is_space (last (join '' '' ts))" using assms by (simp add: last_join is_token_def)
  ultimately show ?thesis by (intro trim_id) simp
qed

lemma split_ws_no_space: "t \<in> set (split_ws s) \<Longrightarrow> c \<in> set t \<Longrightarrow> \<not> is_space c"
proof (induction s arbitrary: t rule: split_ws.induct)
  case 1
  then show ?case by simp
next
  case (2 d ds)
  show ?case
  proof (cases "is_space d")
    case True
    with 2 show ?thesis by auto
  next
    case False
    obtain w ws where w: "split_ws ds = w # ws"
      using split_ws_not_Nil [of ds] by (cases "split_ws ds") auto
    with 2(3) False have "t = d # w \<or> t \<in> set ws" by simp
    then show ?thesis
    proof
      assume "t = d # w"
      with 2(4) have "c = d \<or> c \<in> set w" by auto
      then show ?thesis using False "2.IH"(2) [OF False, of w] w by auto
    next
      assume "t \<in> set ws"
      then show ?thesis using "2.IH"(2) [OF False, of t] w 2(4) by auto
    qed
  qed
qed

lemma hd_split_ws: "s \<noteq> [] \<Longrightarrow> \<not> is_space (hd s) \<Longrightarrow> hd (split_ws s) \<noteq> []"
  by (cases s) (auto split: list.splits)

lemma last_dropWhile: "dropWhile P s \<noteq> [] \<Longrightarrow> last (dropWhile P s) = last s"
  by (induction s) (auto split: if_splits)

lemma tl_split_ws:
  "s = [] \<or> \<not> is_space (last s) \<Longrightarrow> t \<in> set (tl (split_ws s)) \<Longrightarrow> t \<noteq> []"
proof (induction s arbitrary: t rule: split_ws.induct)
  case 1
  then show ?case by simp
next
  case (2 c cs)
  show ?case
  proof (cases "is_space c")
    case True
    let ?r = "dropWhile is_space cs"
    from True 2 have "cs \<noteq> []" by auto
    with 2 True have lastcs: "\<not> is_space (last cs)" by auto
    have "?r \<noteq> []"
    proof
      assume "?r = []"
      then have "\<forall>x \<in> set cs. is_space x" by (simp add: dropWhile_eq_Nil_conv)
      with \<open>cs \<noteq> []\<close> lastcs show False using last_in_set by blast
    qed
    then have hd: "\<not> is_space (hd ?r)" by (simp add: hd_dropWhile)
    have last: "\<not> is_space (last ?r)" using \<open>?r \<noteq> []\<close> lastcs by (simp add: last_dropWhile)
    from 2 True have t: "t \<in> set (split_ws ?r)" by simp
    have "split_ws ?r = hd (split_ws ?r) # tl (split_ws ?r)"
      using split_ws_not_Nil [of ?r] by simp
    with t have "t = hd (split_ws ?r) \<or> t \<in> set (tl (split_ws ?r))"
      by (metis set_ConsD)
    then show ?thesis
      using hd_split_ws [OF \<open>?r \<noteq> []\<close> hd] "2.IH"(1) [OF True] last by auto
  next
    case False
    from 2 False have "cs = [] \<or> \<not> is_space (last cs)" by (auto split: if_splits)
    moreover from 2 False have "t \<in> set (tl (split_ws cs))"
      by (auto split: list.splits)
    ultimately show ?thesis using "2.IH"(2) [OF False] by blast
  qed
qed

lemma trim_ends:
  "trim s = [] \<or> (\<not> is_space (hd (trim s)) \<and> \<not> is_space (last (trim s)))"
proof (cases "trim s = []")
  case True
  then show ?thesis by simp
next
  case False
  let ?u = "dropWhile is_space s"
  let ?v = "dropWhile is_space (rev ?u)"
  from False have v: "?v \<noteq> []" by (simp add: trim_def)
  have u: "?u \<noteq> []"
  proof
    assume a: "?u = []"
    have "?v = []" unfolding a by simp
    with v show False by simp
  qed
  have "last (trim s) = hd ?v" using v by (simp add: trim_def last_rev)
  then have l: "\<not> is_space (last (trim s))" using v by (simp add: hd_dropWhile)
  have "hd (trim s) = last ?v" using v by (simp add: trim_def hd_rev)
  also have "\<dots> = last (rev ?u)" using v by (rule last_dropWhile)
  also have "\<dots> = hd ?u" using u by (simp add: last_rev)
  finally have "\<not> is_space (hd (trim s))" using u by (simp add: hd_dropWhile)
  with l show ?thesis by simp
qed

lemma args_shape:
  "split_ws (trim l) = [[]] \<or> (\<forall>t \<in> set (split_ws (trim l)). is_token t)"
proof (cases "trim l = []")
  case True
  then show ?thesis by simp
next
  case False
  let ?s = "trim l"
  from False trim_ends [of l] have e: "\<not> is_space (hd ?s)" "\<not> is_space (last ?s)" by auto
  have dec: "split_ws ?s = hd (split_ws ?s) # tl (split_ws ?s)"
    using split_ws_not_Nil [of ?s] by simp
  have "t \<noteq> []" if "t \<in> set (split_ws ?s)" for t
  proof -
    from that dec have "t = hd (split_ws ?s) \<or> t \<in> set (tl (split_ws ?s))" by (metis set_ConsD)
    then show ?thesis using hd_split_ws [OF False e(1)] tl_split_ws [of ?s t] e(2) by auto
  qed
  then show ?thesis using split_ws_no_space by (auto simp: is_token_def)
qed

lemma retokenize:
  assumes "0 < k"
  shows "split_ws (trim (join '' '' (take k (split_ws (trim l))))) = take k (split_ws (trim l))"
proof -
  let ?args = "split_ws (trim l)"
  from args_shape [of l] show ?thesis
  proof
    assume "?args = [[]]"
    with assms show ?thesis by (simp add: trim_def)
  next
    assume tok: "\<forall>t \<in> set ?args. is_token t"
    have ne: "take k ?args \<noteq> []" using assms split_ws_not_Nil [of "trim l"] by simp
    have "\<forall>t \<in> set (take k ?args). is_token t" using tok by (meson in_set_takeD)
    with ne show ?thesis by (simp add: trim_join split_ws_join)
  qed
qed

section \<open>Tokens that no command reads\<close>

lemma arg_take: "i < k \<Longrightarrow> arg (take k args) i = arg args i"
  by (simp add: arg_def)

lemma exec_ls_take:
  assumes "1 < k"
  shows "exec_ls P now fs (take k args) = exec_ls P now fs args"
  unfolding exec_ls_def ls_target_def arg_take [OF assms] by (rule refl)

lemma exec_cd_take:
  assumes "1 < k"
  shows "exec_cd fs (take k args) = exec_cd fs args"
  unfolding exec_cd_def arg_take [OF assms] by (rule refl)

lemma exec_mkdir_take:
  assumes "1 < k"
  shows "exec_mkdir now fs (take k args) = exec_mkdir now fs args"
  unfolding exec_mkdir_def arg_take [OF assms] by (rule refl)

lemma exec_touch_take:
  assumes "1 < k"
  shows "exec_touch now fs (take k args) = exec_touch now fs args"
  unfolding exec_touch_def arg_take [OF assms] by (rule refl)

lemma exec_rm_take:
  assumes "1 < k"
  shows "exec_rm now fs (take k args) = exec_rm now fs args"
  unfolding exec_rm_def arg_take [OF assms] by (rule refl)

lemma exec_rmdir_take:
  assumes "1 < k"
  shows "exec_rmdir now fs (take k args) = exec_rmdir now fs args"
  unfolding exec_rmdir_def arg_take [OF assms] by (rule refl)

lemma exec_cat_take:
  assumes "1 < k"
  shows "exec_cat fs (take k args) = exec_cat fs args"
  unfolding exec_cat_def arg_take [OF assms] by (rule refl)

lemma exec_curl_take:
  assumes "1 < k"
  shows "exec_curl P now fs (take k args) = exec_curl P now fs args"
  unfolding exec_curl_def arg_take [OF assms] by (rule refl)

lemma two_args_take:
  assumes "2 < k"
  shows "two_args (take k args) = two_args args"
proof -
  from assms have one: "1 < k" by simp
  show ?thesis unfolding two_args_def arg_take [OF one] arg_take [OF assms] by (rule refl)
qed

lemma exec_mv_take: "2 < k \<Longrightarrow> exec_mv now fs (take k args) = exec_mv now fs args"
  by (simp add: exec_mv_def two_args_take)

lemma exec_cp_take: "2 < k \<Longrightarrow> exec_cp now fs (take k args) = exec_cp now fs args"
  by (simp add: exec_cp_def two_args_take)

lemma dispatch_take:
  "dispatch P now s c (take (Suc (consumed c)) args) = dispatch P now s c args"
  by (simp add: dispatch_def consumed_def exec_ls_take exec_cd_take exec_mkdir_take
      exec_touch_take exec_rm_take exec_rmdir_take exec_cat_take exec_curl_take exec_mv_take
      exec_cp_take)

lemma command_of_retokenized:
  assumes "0 < k"
  shows "command_of (join '' '' (take k (split_ws (trim l)))) = command_of l"
proof -
  have "command_of (join '' '' (take k (split_ws (trim l))))
      = (case take k (split_ws (trim l)) of [] \<Rightarrow> [] | c # _ \<Rightarrow> c)"
    unfolding command_of_def retokenize [OF assms] by (rule refl)
  also have "\<dots> = command_of l"
    using assms by (cases "split_ws (trim l)"; cases k) (simp_all add: command_of_def)
  finally show ?thesis .
qed

text \<open>
  Claim C10. For every state, clock reading and input line, executing the line gives the
  same result and the same successor state as executing the line made of its command and
  the arguments that the command reads, joined by single spaces: the further tokens are
  ignored.
\<close>

theorem extra_tokens_ignored:
  "executeCommand P now s (join '' '' (take (Suc (consumed (command_of l))) (split_ws (trim l))))
     = executeCommand P now s l"
  by (simp add: executeCommand_dispatch command_of_retokenized retokenize dispatch_take)

theorem extra_tokens_ignored_witness:
  "executeCommand example_platform 7 (createInitialFileSystem 0) ''  rm   welcome.txt documents   c ''
     = executeCommand example_platform 7 (createInitialFileSystem 0) ''rm welcome.txt''"
proof -
  have "join '' '' (take (Suc (consumed (command_of ''  rm   welcome.txt documents   c '')))
          (split_ws (trim ''  rm   welcome.txt documents   c ''))) = ''rm welcome.txt''"
    by code_simp
  with extra_tokens_ignored
    [of example_platform 7 "createInitialFileSystem 0" "''  rm   welcome.txt documents   c ''"]
  show ?thesis by simp
qed

section \<open>Commands on a child of the current directory\<close>

text \<open>
  When the current path names a node, the replay of an updater reaches that node, which
  is the node that the command has validated.
\<close>

lemma inherited_plain: "inherited k = Some b \<Longrightarrow> children b = None \<and> type b = Absent"
  by (auto simp: inherited_def split: if_splits)

lemma property_own: "map_of cs k = Some item \<Longrightarrow> property cs k = Some item"
  by (simp add: property_def)

lemma property_typed: "property cs k = Some item \<Longrightarrow> type item \<noteq> Absent \<Longrightarrow> map_of cs k = Some item"
  by (auto simp: property_def dest: inherited_plain split: option.splits)

lemma property_parent:
  "property cs k = Some item \<Longrightarrow> children item \<noteq> None \<Longrightarrow> map_of cs k = Some item"
  by (auto simp: property_def dest: inherited_plain split: option.splits)

lemma property_fresh: "map_of cs k = None \<Longrightarrow> inherited k = None \<Longrightarrow> property cs k = None"
  by (simp add: property_def)

lemma walk_childless: "children b = None \<Longrightarrow> walk b p = Some d \<Longrightarrow> children d = None"
  by (cases p) auto

lemma update_at_walk:
  "walk r p = Some d \<Longrightarrow> children d \<noteq> None \<Longrightarrow> f d = Some d' \<Longrightarrow>
     \<exists>r'. update_at p f r = Some r' \<and> walk r' p = Some d'"
proof (induction p arbitrary: r)
  case Nil
  then show ?case by simp
next
  case (Cons seg p)
  from Cons.prems(1) obtain cs child where cs: "children r = Some cs"
    and child: "property cs seg = Some child" and w: "walk child p = Some d"
    by (auto split: option.splits)
  have "children child \<noteq> None"
    using walk_childless [OF _ w] Cons.prems(2) by blast
  from property_parent [OF child this] have own: "map_of cs seg = Some child" .
  from Cons.IH [OF w Cons.prems(2) Cons.prems(3)] obtain child' where
    u: "update_at p f child = Some child'" and w': "walk child' p = Some d'" by blast
  from cs own u w' show ?case
    by (simp add: set_children_def update_conv' property_def)
qed

lemma update_at_Some:
  assumes "update_at p f r = Some r'" and "\<And>d d'. f d = Some d' \<Longrightarrow> children d \<noteq> None"
  shows "\<exists>d d'. walk r p = Some d \<and> f d = Some d' \<and> walk r' p = Some d'"
  using assms(1)
proof (induction p arbitrary: r r')
  case Nil
  then show ?case by simp
next
  case (Cons seg p)
  from Cons.prems obtain cs where cs: "children r = Some cs"
    by (auto split: option.splits)
  show ?case
  proof (cases "map_of cs seg")
    case (Some child)
    with Cons.prems cs obtain child' where u: "update_at p f child = Some child'"
      and r': "r' = set_children r (AList.update seg child' cs)"
      by (auto split: option.splits)
    from Cons.IH [OF u] obtain d d' where
      "walk child p = Some d" "f d = Some d'" "walk child' p = Some d'"
      by blast
    with cs Some r' show ?thesis
      by (simp add: set_children_def update_conv' property_def)
  next
    case None
    with Cons.prems cs obtain b x where b: "inherited seg = Some b" and u: "update_at p f b = Some x"
      by (auto split: option.splits)
    from Cons.IH [OF u] obtain d d' where w: "walk b p = Some d" and f: "f d = Some d'"
      by blast
    from inherited_plain [OF b] walk_childless [OF _ w] assms(2) [OF f] show ?thesis
      by blast
  qed
qed

lemma commit_at:
  assumes "walk (root s) (currentPath s) = Some d" and "children d \<noteq> None" and "f d = Some d'"
  shows "\<exists>r'. commit s f = Some (\<lparr>output = [], error = False\<rparr>, s\<lparr>root := r'\<rparr>)
            \<and> walk r' (currentPath s) = Some d'"
  using update_at_walk [of "root s" "currentPath s" d f d'] assms by (auto simp: commit_def)

lemma commit_Some:
  assumes "commit s f = Some (r, s')" and "\<And>d d'. f d = Some d' \<Longrightarrow> children d \<noteq> None"
  shows "\<exists>d d'. walk (root s) (currentPath s) = Some d \<and> f d = Some d'
            \<and> walk (root s') (currentPath s') = Some d' \<and> r = \<lparr>output = [], error = False\<rparr>"
proof -
  from assms(1) obtain r' where u: "update_at (currentPath s) f (root s) = Some r'"
    and s': "s' = s\<lparr>root := r'\<rparr>" and r: "r = \<lparr>output = [], error = False\<rparr>"
    by (auto simp: commit_def split: option.splits)
  from update_at_Some [of "currentPath s" f "root s" r', OF u assms(2)] s' r show ?thesis by auto
qed

lemma line_args1:
  assumes "is_token c" and "is_token n"
  shows "split_ws (trim (c @ '' '' @ n)) = [c, n]"
  using trim_join [of "[c, n]"] split_ws_join [of "[c, n]"] assms by simp

lemma line_args2:
  assumes "is_token c" and "is_token a" and "is_token b"
  shows "split_ws (trim (c @ '' '' @ a @ '' '' @ b)) = [c, a, b]"
  using trim_join [of "[c, a, b]"] split_ws_join [of "[c, a, b]"] assms by simp

lemma is_token_literals:
  "is_token ''rmdir''" "is_token ''touch''" "is_token ''cat''" "is_token ''mv''" "is_token ''cp''"
  by (simp_all add: is_token_def is_space_def)

lemma rmdir_line: "is_token n \<Longrightarrow> executeCommand P now s (''rmdir '' @ n) = exec_rmdir now s [''rmdir'', n]"
  using line_args1 [of "''rmdir''" n]
  by (simp add: is_token_literals executeCommand_def arg_def supportedCommands_def dispatch_def)

lemma touch_line: "is_token n \<Longrightarrow> executeCommand P now s (''touch '' @ n) = exec_touch now s [''touch'', n]"
  using line_args1 [of "''touch''" n]
  by (simp add: is_token_literals executeCommand_def arg_def supportedCommands_def dispatch_def)

lemma cat_line: "is_token n \<Longrightarrow> executeCommand P now s (''cat '' @ n) = exec_cat s [''cat'', n]"
  using line_args1 [of "''cat''" n]
  by (simp add: is_token_literals executeCommand_def arg_def supportedCommands_def dispatch_def)

lemma mv_line:
  "is_token a \<Longrightarrow> is_token b \<Longrightarrow>
     executeCommand P now s (''mv '' @ a @ '' '' @ b) = exec_mv now s [''mv'', a, b]"
  using line_args2 [of "''mv''" a b]
  by (simp add: is_token_literals executeCommand_def arg_def supportedCommands_def dispatch_def)

lemma cp_line:
  "is_token a \<Longrightarrow> is_token b \<Longrightarrow>
     executeCommand P now s (''cp '' @ a @ '' '' @ b) = exec_cp now s [''cp'', a, b]"
  using line_args2 [of "''cp''" a b]
  by (simp add: is_token_literals executeCommand_def arg_def supportedCommands_def dispatch_def)


lemma getCurrentDirectory_walk:
  "walk (root s) (currentPath s) = Some d \<Longrightarrow> getCurrentDirectory s = d"
  by (simp add: getCurrentDirectory_def)

lemma current_child_walk:
  "walk (root s) (currentPath s) = Some d \<Longrightarrow> children d = Some cs \<Longrightarrow> current_child s n = map_of cs n"
  by (simp add: current_child_def getCurrentDirectory_def)

lemma exec_rmdir_not_empty:
  assumes "n \<noteq> []" and "current_child s n = Some c" and "type c = Directory" and "0 < child_count c"
  shows "exec_rmdir now s [c0, n]
       = Some (\<lparr>output = ''rmdir: failed to remove '' @ quoted n @ '': Directory not empty'', error = True\<rparr>, s)"
  using assms
  by (auto simp: exec_rmdir_def arg_def failure_def current_child_def child_count_def property_def
      split: option.splits bind_splits)

lemma exec_rmdir_success:
  assumes "exec_rmdir now s [c0, n] = Some (r, s')" and "\<not> error r"
  shows "(\<exists>c. current_child s n = Some c \<and> type c = Directory \<and> child_count c = 0)
       \<and> commit s (delete_update n now) = Some (r, s')"
proof -
  from assms obtain cs c where cs: "children (getCurrentDirectory s) = Some cs"
    and c: "property cs n = Some c" and dir: "type c = Directory"
    and empty: "\<not> (case children c of None \<Rightarrow> False | Some tcs \<Rightarrow> length tcs > 0)"
    and run: "commit s (delete_update n now) = Some (r, s')"
    by (auto simp: exec_rmdir_def arg_def failure_def split: option.splits if_splits bind_splits)
  from property_typed [OF c] dir have "map_of cs n = Some c" by simp
  with cs dir empty run show ?thesis
    by (auto simp: current_child_def child_count_def split: option.splits)
qed

lemma exec_rmdir_empty:
  assumes "n \<noteq> []" and "current_child s n = Some c" and "type c = Directory" and "child_count c = 0"
  shows "exec_rmdir now s [c0, n] = commit s (delete_update n now)"
  using assms
  by (auto simp: exec_rmdir_def arg_def failure_def current_child_def child_count_def property_def
      split: option.splits bind_splits)

lemma commit_delete:
  assumes "commit s (delete_update n now) = Some (r, s')"
  shows "current_child s' m = (if m = n then None else current_child s m)"
proof -
  have parent: "children d \<noteq> None" if "delete_update n now d = Some d'" for d d'
    using that by (auto simp: delete_update_def split: option.splits)
  have "\<exists>d d'. walk (root s) (currentPath s) = Some d \<and> delete_update n now d = Some d'
            \<and> walk (root s') (currentPath s') = Some d' \<and> r = \<lparr>output = [], error = False\<rparr>"
    by (rule commit_Some [OF assms]) (erule parent)
  then obtain d d' where d: "walk (root s) (currentPath s) = Some d"
    and f: "delete_update n now d = Some d'" and d': "walk (root s') (currentPath s') = Some d'"
    by blast
  from f obtain cs where cs: "children d = Some cs"
    and cs': "children d' = Some (AList.delete n cs)"
    by (auto simp: delete_update_def set_children_def set_modified_def split: option.splits)
  show ?thesis
    by (simp add: current_child_walk [OF d cs] current_child_walk [OF d' cs'] delete_conv')
qed

text \<open>
  Claim C7. For every state and every name \<open>n\<close>: when the child \<open>n\<close> of the current
  directory is a directory with at least one child (of any kind), \<^verbatim>\<open>rmdir n\<close> fails with
  the message \<open>Directory not empty\<close> and leaves the state; when \<^verbatim>\<open>rmdir n\<close> succeeds, the
  child was a directory without children, it is gone afterwards and the other children
  are kept; and \<^verbatim>\<open>rmdir n\<close> does succeed on a directory without children when the current
  path names a node.
\<close>

theorem rmdir_only_empty_directories:
  assumes "is_token n"
  shows "(\<forall>c. current_child s n = Some c \<and> type c = Directory \<and> 0 < child_count c \<longrightarrow>
            executeCommand P now s (''rmdir '' @ n)
              = Some (\<lparr>output = ''rmdir: failed to remove '' @ quoted n @ '': Directory not empty'',
                       error = True\<rparr>, s))
       \<and> (\<forall>r s'. executeCommand P now s (''rmdir '' @ n) = Some (r, s') \<and> \<not> error r \<longrightarrow>
            (\<exists>c. current_child s n = Some c \<and> type c = Directory \<and> child_count c = 0)
            \<and> current_child s' n = None
            \<and> (\<forall>m. m \<noteq> n \<longrightarrow> current_child s' m = current_child s m))
       \<and> (\<forall>c. walk (root s) (currentPath s) \<noteq> None \<and> current_child s n = Some c
              \<and> type c = Directory \<and> child_count c = 0 \<longrightarrow>
            (\<exists>s'. executeCommand P now s (''rmdir '' @ n) = Some (\<lparr>output = [], error = False\<rparr>, s')))"
proof (intro conjI allI impI)
  from assms have n: "n \<noteq> []" by (simp add: is_token_def)
  note line = rmdir_line [OF assms, of P now s]
  {
    fix c
    assume "current_child s n = Some c \<and> type c = Directory \<and> 0 < child_count c"
    then show "executeCommand P now s (''rmdir '' @ n)
              = Some (\<lparr>output = ''rmdir: failed to remove '' @ quoted n @ '': Directory not empty'',
                       error = True\<rparr>, s)"
      using exec_rmdir_not_empty [OF n, of s c now] line by simp
  next
    fix r s'
    assume a: "executeCommand P now s (''rmdir '' @ n) = Some (r, s') \<and> \<not> error r"
    then have e: "exec_rmdir now s [''rmdir'', n] = Some (r, s')" and ne: "\<not> error r"
      using line by simp_all
    note suc = exec_rmdir_success [OF e ne]
    from suc show "\<exists>c. current_child s n = Some c \<and> type c = Directory \<and> child_count c = 0"
      by blast
    from suc have c: "commit s (delete_update n now) = Some (r, s')" by blast
    show "current_child s' n = None" by (simp add: commit_delete [OF c])
    fix m
    assume "m \<noteq> n"
    then show "current_child s' m = current_child s m" by (simp add: commit_delete [OF c])
  next
    fix c
    assume a: "walk (root s) (currentPath s) \<noteq> None \<and> current_child s n = Some c
              \<and> type c = Directory \<and> child_count c = 0"
    then obtain d where d: "walk (root s) (currentPath s) = Some d" by auto
    from a d obtain cs where cs: "children d = Some cs"
      by (auto simp: current_child_def getCurrentDirectory_def split: option.splits bind_splits)
    then have "delete_update n now d = Some (set_modified (set_children d (AList.delete n cs)) now)"
      by (simp add: delete_update_def)
    from commit_at [where f = "delete_update n now", OF d _ this] cs a exec_rmdir_empty [OF n, of s c now]
    show "\<exists>s'. executeCommand P now s (''rmdir '' @ n) = Some (\<lparr>output = [], error = False\<rparr>, s')"
      using line by auto
  }
qed


theorem rmdir_only_empty_directories_witness:
  "is_token ''user'' \<and> is_token ''documents''
   \<and> (\<exists>c. (current_child ((createInitialFileSystem 0)\<lparr>currentPath := [''home'']\<rparr>) ''user'' = Some c
             \<and> type c = Directory \<and> 0 < child_count c)
          \<and> executeCommand example_platform 1 ((createInitialFileSystem 0)\<lparr>currentPath := [''home'']\<rparr>)
                (''rmdir '' @ ''user'')
              = Some (\<lparr>output = ''rmdir: failed to remove '' @ quoted ''user'' @ '': Directory not empty'',
                       error = True\<rparr>, (createInitialFileSystem 0)\<lparr>currentPath := [''home'']\<rparr>))
   \<and> (\<exists>r s'. (executeCommand example_platform 1 (createInitialFileSystem 0) (''rmdir '' @ ''documents'')
                  = Some (r, s') \<and> \<not> error r)
          \<and> (\<exists>c. current_child (createInitialFileSystem 0) ''documents'' = Some c
                 \<and> type c = Directory \<and> child_count c = 0)
          \<and> current_child s' ''documents'' = None)
   \<and> (\<exists>c. (walk (root (createInitialFileSystem 0)) (currentPath (createInitialFileSystem 0)) \<noteq> None
             \<and> current_child (createInitialFileSystem 0) ''documents'' = Some c
             \<and> type c = Directory \<and> child_count c = 0)
          \<and> (\<exists>s'. executeCommand example_platform 1 (createInitialFileSystem 0) (''rmdir '' @ ''documents'')
                  = Some (\<lparr>output = [], error = False\<rparr>, s')))"
proof -
  let ?s0 = "createInitialFileSystem 0"
  let ?s1 = "(createInitialFileSystem 0)\<lparr>currentPath := [''home'']\<rparr>"
  let ?user = "the (current_child ?s1 ''user'')"
  let ?docs = "the (current_child ?s0 ''documents'')"
  let ?res = "the (executeCommand example_platform 1 ?s0 (''rmdir '' @ ''documents''))"
  have t1: "is_token ''user''" and t2: "is_token ''documents''"
    by (simp_all add: is_token_def is_space_def)
  note at_home = rmdir_only_empty_directories [OF t1, of ?s1 example_platform 1]
  note at_user = rmdir_only_empty_directories [OF t2, of ?s0 example_platform 1]
  have full: "current_child ?s1 ''user'' = Some ?user \<and> type ?user = Directory \<and> 0 < child_count ?user"
    by code_simp
  have p1: "\<exists>c. (current_child ?s1 ''user'' = Some c \<and> type c = Directory \<and> 0 < child_count c)
          \<and> executeCommand example_platform 1 ?s1 (''rmdir '' @ ''user'')
              = Some (\<lparr>output = ''rmdir: failed to remove '' @ quoted ''user'' @ '': Directory not empty'',
                       error = True\<rparr>, ?s1)"
    by (rule exI [of _ ?user]) (intro conjI full at_home [THEN conjunct1, rule_format, OF full])
  have ran: "executeCommand example_platform 1 ?s0 (''rmdir '' @ ''documents'') = Some (fst ?res, snd ?res)
      \<and> \<not> error (fst ?res)"
    by code_simp
  note gone = at_user [THEN conjunct2, THEN conjunct1, rule_format, OF ran]
  have p2: "\<exists>r s'. (executeCommand example_platform 1 ?s0 (''rmdir '' @ ''documents'') = Some (r, s')
                  \<and> \<not> error r)
          \<and> (\<exists>c. current_child ?s0 ''documents'' = Some c \<and> type c = Directory \<and> child_count c = 0)
          \<and> current_child s' ''documents'' = None"
    by (rule exI [of _ "fst ?res"], rule exI [of _ "snd ?res"])
      (intro conjI ran gone [THEN conjunct1] gone [THEN conjunct2, THEN conjunct1])
  have empty: "walk (root ?s0) (currentPath ?s0) \<noteq> None
      \<and> current_child ?s0 ''documents'' = Some ?docs \<and> type ?docs = Directory \<and> child_count ?docs = 0"
    by code_simp
  have p3: "\<exists>c. (walk (root ?s0) (currentPath ?s0) \<noteq> None
             \<and> current_child ?s0 ''documents'' = Some c \<and> type c = Directory \<and> child_count c = 0)
          \<and> (\<exists>s'. executeCommand example_platform 1 ?s0 (''rmdir '' @ ''documents'')
                  = Some (\<lparr>output = [], error = False\<rparr>, s'))"
    by (rule exI [of _ ?docs])
      (intro conjI empty at_user [THEN conjunct2, THEN conjunct2, rule_format, OF empty])
  show ?thesis
    by (intro conjI t1 t2 p1 p2 p3)
qed

lemma commit_children:
  assumes d: "walk (root s) (currentPath s) = Some d" and parent: "children d \<noteq> None"
    and f: "f d = Some d'" and cs': "children d' = Some cs'"
  shows "\<exists>s1. commit s f = Some (\<lparr>output = [], error = False\<rparr>, s1)
            \<and> currentPath s1 = currentPath s \<and> (\<forall>k. current_child s1 k = map_of cs' k)"
proof -
  from commit_at [where f = f, OF d parent f] obtain r' where
    c: "commit s f = Some (\<lparr>output = [], error = False\<rparr>, s\<lparr>root := r'\<rparr>)"
    and w: "walk r' (currentPath s) = Some d'" by blast
  from w have "walk (root (s\<lparr>root := r'\<rparr>)) (currentPath (s\<lparr>root := r'\<rparr>)) = Some d'" by simp
  from current_child_walk [OF this cs'] c show ?thesis by auto
qed

lemma exec_cat_file:
  assumes "n \<noteq> []" and "current_child s n = Some item" and "type item = File"
  shows "exec_cat s [c0, n]
       = Some (\<lparr>output = (case content item of None \<Rightarrow> [] | Some c \<Rightarrow> c), error = False\<rparr>, s)"
  using assms
  by (auto simp: exec_cat_def arg_def success_def current_child_def property_def
      split: option.splits bind_splits)

lemma exec_touch_new:
  assumes d: "walk (root s) (currentPath s) = Some d" and cs: "children d = Some cs"
    and n: "n \<noteq> []" and new: "map_of cs n = None" and plain: "inherited n = None"
  shows "\<exists>s1. exec_touch t s [c0, n] = Some (\<lparr>output = [], error = False\<rparr>, s1)
            \<and> current_child s1 n = Some (FileSystemItem n File (Some []) None (Some t) (Some t))"
proof -
  let ?cs' = "AList.update n (FileSystemItem n File (Some []) None (Some t) (Some t)) cs"
  let ?d' = "set_modified (set_children d ?cs') t"
  from cs have parent: "children d \<noteq> None" by simp
  from cs new plain have f: "touch_update n t d = Some ?d'" by (simp add: touch_update_def)
  have c: "children ?d' = Some ?cs'" by (simp add: set_modified_def set_children_def)
  from commit_children [where f = "touch_update n t", OF d parent f c] obtain s1 where
    "commit s (touch_update n t) = Some (\<lparr>output = [], error = False\<rparr>, s1)"
    "\<forall>k. current_child s1 k = map_of ?cs' k" by blast
  moreover have "exec_touch t s [c0, n] = commit s (touch_update n t)"
    using n cs by (simp add: exec_touch_def arg_def getCurrentDirectory_walk [OF d])
  ultimately show ?thesis by (auto simp: update_conv')
qed

lemma exec_cp_file:
  assumes d: "walk (root s) (currentPath s) = Some d" and cs: "children d = Some cs"
    and a: "a \<noteq> []" and b: "b \<noteq> []" and src: "map_of cs a = Some item"
    and isfile: "type item = File" and new: "map_of cs b = None" and plain: "inherited b = None"
  shows "\<exists>s1. exec_cp t s [c0, a, b] = Some (\<lparr>output = [], error = False\<rparr>, s1)
            \<and> current_child s1 b
                = Some (FileSystemItem b (type item) (content item) (children item) (Some t) (Some t))"
proof -
  let ?cs' = "AList.update b
     (FileSystemItem b (type item) (content item) (children item) (Some t) (Some t)) cs"
  let ?d' = "set_modified (set_children d ?cs') t"
  from cs have parent: "children d \<noteq> None" by simp
  from cs src have f: "cp_update a b t d = Some ?d'" by (simp add: cp_update_def spread_def)
  have c: "children ?d' = Some ?cs'" by (simp add: set_modified_def set_children_def)
  from commit_children [where f = "cp_update a b t", OF d parent f c] obtain s1 where
    "commit s (cp_update a b t) = Some (\<lparr>output = [], error = False\<rparr>, s1)"
    "\<forall>k. current_child s1 k = map_of ?cs' k" by blast
  moreover have "exec_cp t s [c0, a, b] = commit s (cp_update a b t)"
    using a b cs src isfile new plain
    by (simp add: exec_cp_def two_args_def arg_def getCurrentDirectory_walk [OF d] property_def)
  ultimately show ?thesis by (auto simp: update_conv')
qed

lemma exec_mv_child:
  assumes d: "walk (root s) (currentPath s) = Some d" and cs: "children d = Some cs"
    and a: "a \<noteq> []" and b: "b \<noteq> []" and src: "map_of cs a = Some item"
    and new: "map_of cs b = None" and plain: "inherited b = None"
  shows "\<exists>s1. exec_mv t s [c0, a, b] = Some (\<lparr>output = [], error = False\<rparr>, s1)
            \<and> currentPath s1 = currentPath s
            \<and> current_child s1 b = Some (set_name item b)
            \<and> current_child s1 a = None
            \<and> (\<forall>k. k \<noteq> a \<and> k \<noteq> b \<longrightarrow> current_child s1 k = current_child s k)"
proof -
  let ?cs' = "AList.delete a (AList.update b (set_name item b) cs)"
  let ?d' = "set_modified (set_children d ?cs') t"
  from src new have ab: "a \<noteq> b" by auto
  from cs have parent: "children d \<noteq> None" by simp
  from cs src have f: "mv_update a b t d = Some ?d'" by (simp add: mv_update_def spread_def)
  have c: "children ?d' = Some ?cs'" by (simp add: set_modified_def set_children_def)
  from commit_children [where f = "mv_update a b t", OF d parent f c] obtain s1 where
    "commit s (mv_update a b t) = Some (\<lparr>output = [], error = False\<rparr>, s1)"
    "currentPath s1 = currentPath s"
    "\<forall>k. current_child s1 k = map_of ?cs' k" by blast
  moreover have "exec_mv t s [c0, a, b] = commit s (mv_update a b t)"
    using a b cs src new plain
    by (simp add: exec_mv_def two_args_def arg_def getCurrentDirectory_walk [OF d] property_def)
  ultimately show ?thesis
    using ab by (auto simp: update_conv' delete_conv' current_child_walk [OF d cs])
qed

text \<open>
  For the names outside \<open>prototype_names\<close> the round trip holds in every current directory:
  after \<^verbatim>\<open>touch f\<close>, for a name \<open>f\<close> that has no child, \<^verbatim>\<open>cat f\<close> returns the empty
  string; and after \<^verbatim>\<open>cp src dest\<close> or \<^verbatim>\<open>mv src dest\<close>, for a file child \<open>src\<close> of
  content \<open>X\<close> and a name \<open>dest\<close> that has no child, \<^verbatim>\<open>cat dest\<close> returns \<open>X\<close>.
\<close>

lemma round_trip_of_plain_names:
  assumes d: "walk (root s) (currentPath s) = Some d" and cs: "children d = Some cs"
  shows "(\<forall>f. is_token f \<and> map_of cs f = None \<and> inherited f = None \<longrightarrow>
            (\<exists>s1. executeCommand P t s (''touch '' @ f) = Some (\<lparr>output = [], error = False\<rparr>, s1)
                \<and> executeCommand P t' s1 (''cat '' @ f) = Some (\<lparr>output = [], error = False\<rparr>, s1)))
       \<and> (\<forall>src dest item X.
            is_token src \<and> is_token dest \<and> map_of cs src = Some item \<and> type item = File
              \<and> content item = Some X \<and> map_of cs dest = None \<and> inherited dest = None \<longrightarrow>
            (\<exists>s1. executeCommand P t s (''cp '' @ src @ '' '' @ dest)
                     = Some (\<lparr>output = [], error = False\<rparr>, s1)
                \<and> executeCommand P t' s1 (''cat '' @ dest) = Some (\<lparr>output = X, error = False\<rparr>, s1))
            \<and> (\<exists>s1. executeCommand P t s (''mv '' @ src @ '' '' @ dest)
                     = Some (\<lparr>output = [], error = False\<rparr>, s1)
                \<and> executeCommand P t' s1 (''cat '' @ dest) = Some (\<lparr>output = X, error = False\<rparr>, s1)))"
proof (intro conjI allI impI)
  fix f
  assume a: "is_token f \<and> map_of cs f = None \<and> inherited f = None"
  then have f: "f \<noteq> []" by (simp add: is_token_def)
  from a have new: "map_of cs f = None" and plain: "inherited f = None" by simp_all
  from exec_touch_new [OF d cs f new plain, of t "''touch''"] obtain s1 where
    "exec_touch t s [''touch'', f] = Some (\<lparr>output = [], error = False\<rparr>, s1)"
    "current_child s1 f = Some (FileSystemItem f File (Some []) None (Some t) (Some t))" by blast
  with exec_cat_file [OF f, of s1 _ "''cat''"] a
    touch_line [of f P t s] cat_line [of f P t' s1]
  show "\<exists>s1. executeCommand P t s (''touch '' @ f) = Some (\<lparr>output = [], error = False\<rparr>, s1)
                \<and> executeCommand P t' s1 (''cat '' @ f) = Some (\<lparr>output = [], error = False\<rparr>, s1)"
    by auto
next
  fix src dest item X
  assume a: "is_token src \<and> is_token dest \<and> map_of cs src = Some item \<and> type item = File
              \<and> content item = Some X \<and> map_of cs dest = None \<and> inherited dest = None"
  then have n: "src \<noteq> []" "dest \<noteq> []" by (simp_all add: is_token_def)
  from a have src: "map_of cs src = Some item" and isfile: "type item = File"
    and new: "map_of cs dest = None" and X: "content item = Some X"
    and plain: "inherited dest = None" by simp_all
  from exec_cp_file [OF d cs n src isfile new plain, of t "''cp''"] obtain s1 where
    "exec_cp t s [''cp'', src, dest] = Some (\<lparr>output = [], error = False\<rparr>, s1)"
    "current_child s1 dest
       = Some (FileSystemItem dest (type item) (content item) (children item) (Some t) (Some t))"
    by blast
  with exec_cat_file [OF n(2), of s1 _ "''cat''"] a
    cp_line [of src dest P t s] cat_line [of dest P t' s1]
  show "\<exists>s1. executeCommand P t s (''cp '' @ src @ '' '' @ dest)
                     = Some (\<lparr>output = [], error = False\<rparr>, s1)
                \<and> executeCommand P t' s1 (''cat '' @ dest) = Some (\<lparr>output = X, error = False\<rparr>, s1)"
    by auto
  from exec_mv_child [OF d cs n src new plain, of t "''mv''"] obtain s2 where
    "exec_mv t s [''mv'', src, dest] = Some (\<lparr>output = [], error = False\<rparr>, s2)"
    "current_child s2 dest = Some (set_name item dest)"
    by blast
  with exec_cat_file [OF n(2), of s2 _ "''cat''"] a
    mv_line [of src dest P t s] cat_line [of dest P t' s2]
  show "\<exists>s1. executeCommand P t s (''mv '' @ src @ '' '' @ dest)
                     = Some (\<lparr>output = [], error = False\<rparr>, s1)
                \<and> executeCommand P t' s1 (''cat '' @ dest) = Some (\<lparr>output = X, error = False\<rparr>, s1)"
    by (auto simp: set_name_def)
qed


lemma exec_cp_directory:
  assumes d: "walk (root s) (currentPath s) = Some d" and cs: "children d = Some cs"
    and a: "a \<noteq> []" and b: "b \<noteq> []" and src: "map_of cs a = Some item"
    and dir: "type item = Directory" and new: "map_of cs b = None" and plain: "inherited b = None"
  shows "exec_cp t s [c0, a, b]
       = Some (\<lparr>output = ''cp: -r not specified; omitting directory '' @ quoted a, error = True\<rparr>, s)"
  using a b cs src dir new plain
  by (simp add: exec_cp_def two_args_def arg_def failure_def getCurrentDirectory_walk [OF d]
      property_def)

text \<open>
  For a destination outside \<open>prototype_names\<close>, \<^verbatim>\<open>mv\<close> moves a directory: in a current
  directory, for a child \<open>src\<close> that is a directory (empty or not) and a name \<open>dest\<close> that
  has no child, \<^verbatim>\<open>mv src dest\<close> succeeds; the child is gone under \<open>src\<close> and is there
  under \<open>dest\<close>, with the name \<open>dest\<close> and with the children, content and dates it had;
  the other children are kept. \<^verbatim>\<open>cp src dest\<close> refuses the same source.
\<close>

lemma mv_to_plain_name_moves_directories:
  assumes src: "is_token src" and dest: "is_token dest"
    and d: "walk (root s) (currentPath s) = Some d" and cs: "children d = Some cs"
    and item: "map_of cs src = Some item" and dir: "type item = Directory"
    and new: "map_of cs dest = None" and plain: "inherited dest = None"
  shows "(\<exists>s1 item'.
            executeCommand P t s (''mv '' @ src @ '' '' @ dest) = Some (\<lparr>output = [], error = False\<rparr>, s1)
            \<and> currentPath s1 = currentPath s
            \<and> current_child s1 src = None
            \<and> current_child s1 dest = Some item'
            \<and> name item' = dest \<and> type item' = Directory
            \<and> children item' = children item \<and> content item' = content item
            \<and> created item' = created item \<and> modified item' = modified item
            \<and> (\<forall>k. k \<noteq> src \<and> k \<noteq> dest \<longrightarrow> current_child s1 k = current_child s k))
       \<and> executeCommand P t s (''cp '' @ src @ '' '' @ dest)
           = Some (\<lparr>output = ''cp: -r not specified; omitting directory '' @ quoted src,
                    error = True\<rparr>, s)"
proof
  from src dest have n: "src \<noteq> []" "dest \<noteq> []" by (simp_all add: is_token_def)
  from exec_mv_child [OF d cs n item new plain, of t "''mv''"] obtain s1 where
    "exec_mv t s [''mv'', src, dest] = Some (\<lparr>output = [], error = False\<rparr>, s1)"
    "currentPath s1 = currentPath s"
    "current_child s1 dest = Some (set_name item dest)"
    "current_child s1 src = None"
    "\<forall>k. k \<noteq> src \<and> k \<noteq> dest \<longrightarrow> current_child s1 k = current_child s k"
    by blast
  with mv_line [OF src dest, of P t s] dir
  show "\<exists>s1 item'.
            executeCommand P t s (''mv '' @ src @ '' '' @ dest) = Some (\<lparr>output = [], error = False\<rparr>, s1)
            \<and> currentPath s1 = currentPath s
            \<and> current_child s1 src = None
            \<and> current_child s1 dest = Some item'
            \<and> name item' = dest \<and> type item' = Directory
            \<and> children item' = children item \<and> content item' = content item
            \<and> created item' = created item \<and> modified item' = modified item
            \<and> (\<forall>k. k \<noteq> src \<and> k \<noteq> dest \<longrightarrow> current_child s1 k = current_child s k)"
    by (intro exI [of _ s1] exI [of _ "set_name item dest"]) (simp add: set_name_def)
  from exec_cp_directory [OF d cs n item dir new plain, of t "''cp''"] cp_line [OF src dest, of P t s]
  show "executeCommand P t s (''cp '' @ src @ '' '' @ dest)
           = Some (\<lparr>output = ''cp: -r not specified; omitting directory '' @ quoted src,
                    error = True\<rparr>, s)"
    by simp
qed

section \<open>Names that every object inherits\<close>

text \<open>
  The reads \<^verbatim>\<open>children[name]\<close> of the commands also find what every object inherits from
  \<^verbatim>\<open>Object.prototype\<close>, so the commands take the twelve names of \<open>prototype_names\<close> for
  names of existing children. The two theorems of this section run the code at such names.
\<close>

text \<open>
  Claim C8 says that \<^verbatim>\<open>cat f\<close> returns the empty string after \<^verbatim>\<open>touch f\<close> when no child
  \<open>f\<close> exists. In the initial directory no child \<open>constructor\<close> exists; \<^verbatim>\<open>touch constructor\<close>
  succeeds and makes no file, and \<^verbatim>\<open>cat constructor\<close> then fails. \<^verbatim>\<open>cp\<close> and \<^verbatim>\<open>mv\<close> of the
  file \<open>welcome.txt\<close> to that name are refused with \<open>File exists\<close>.
\<close>

theorem touch_of_inherited_name_makes_no_file:
  "(let s0 = createInitialFileSystem 0;
        s1 = last (states example_platform s0 [(1, ''touch constructor'')])
    in current_child s0 ''constructor'' = None
     \<and> executeCommand example_platform 1 s0 ''touch constructor''
         = Some (\<lparr>output = [], error = False\<rparr>, s1)
     \<and> current_child s1 ''constructor'' = None
     \<and> executeCommand example_platform 2 s1 ''cat constructor''
         = Some (\<lparr>output = ''cat: constructor: Is a directory'', error = True\<rparr>, s1)
     \<and> map_option type (current_child s0 ''welcome.txt'') = Some File
     \<and> executeCommand example_platform 1 s0 ''cp welcome.txt constructor''
         = Some (\<lparr>output = ''cp: cannot create regular file '' @ quoted ''constructor'' @ '': File exists'',
                  error = True\<rparr>, s0)
     \<and> executeCommand example_platform 1 s0 ''mv welcome.txt constructor''
         = Some (\<lparr>output = ''mv: cannot move '' @ quoted ''welcome.txt'' @ '' to '' @ quoted ''constructor''
                            @ '': File exists'',
                  error = True\<rparr>, s0))"
  by code_simp

text \<open>
  Claim C9 says that \<^verbatim>\<open>mv src dest\<close> succeeds on a directory \<open>src\<close> when \<open>dest\<close> does not
  exist. In the initial directory \<open>documents\<close> is a directory and no child \<open>constructor\<close>
  exists; \<^verbatim>\<open>mv documents constructor\<close> is refused with \<open>File exists\<close>, and \<^verbatim>\<open>cp\<close> gives
  the same answer before it looks at the kind of the source.
\<close>

theorem mv_refuses_inherited_destination:
  "(let s0 = createInitialFileSystem 0
    in map_option type (current_child s0 ''documents'') = Some Directory
     \<and> current_child s0 ''constructor'' = None
     \<and> executeCommand example_platform 1 s0 ''mv documents constructor''
         = Some (\<lparr>output = ''mv: cannot move '' @ quoted ''documents'' @ '' to '' @ quoted ''constructor''
                            @ '': File exists'',
                  error = True\<rparr>, s0)
     \<and> executeCommand example_platform 1 s0 ''cp documents constructor''
         = Some (\<lparr>output = ''cp: cannot create regular file '' @ quoted ''constructor'' @ '': File exists'',
                  error = True\<rparr>, s0))"
  by code_simp

section \<open>The order of a listing\<close>




















text \<open>
  An item without a type, as \<^verbatim>\<open>mv constructor x\<close> makes one, is beyond the hypothesis on
  the children: the comparator puts it after a file and the file after it, so that the
  comparator is not consistent and the order of the listing is the choice of the engine.
\<close>

lemma ls_compare_of_typeless_item:
  "(let x = FileSystemItem ''x'' Absent None None None None;
        c = FileSystemItem ''c'' File (Some []) None (Some 0) (Some 0)
    in map_option (\<lambda>r. current_child (snd r) ''x'')
         (executeCommand example_platform 1 (createInitialFileSystem 0) ''mv constructor x'') = Some (Some x)
     \<and> ls_compare example_platform x c = 1 \<and> ls_compare example_platform c x = 1
     \<and> \<not> consistent_on (ls_compare example_platform) [c, x])"
  by code_simp

end
